theory Spec2Isabelle
  imports Complex_Main
begin

section \<open>JavaScript numbers\<close>

text \<open>
  The parser computes with JavaScript Numbers. The special values decide several
  properties of the parser (a word such as \<open>X.\<close> parses to NaN, the bounds start at
  the infinities, \<open>Y-0\<close> parses to the negative zero), so they are part of the model:
  a number is NaN, one of the two infinities, the negative zero, or a finite real
  (\<open>Fin 0\<close> is the positive zero). Operations on the special values follow
  ECMAScript. On finite operands the arithmetic is exact: the rounding of a
  double, and an overflow of finite operands to an infinity, are not modelled.
\<close>

datatype jsnum = NaN | NInf | PInf | NZero | Fin real

fun rv :: "jsnum \<Rightarrow> real" where
  "rv (Fin r) = r"
| "rv _ = 0"

fun negative :: "jsnum \<Rightarrow> bool" where
  "negative NInf = True"
| "negative NZero = True"
| "negative (Fin r) = (r < 0)"
| "negative _ = False"

fun is_zero :: "jsnum \<Rightarrow> bool" where
  "is_zero NZero = True"
| "is_zero (Fin r) = (r = 0)"
| "is_zero _ = False"

fun is_inf :: "jsnum \<Rightarrow> bool" where
  "is_inf NInf = True"
| "is_inf PInf = True"
| "is_inf _ = False"

fun is_fin :: "jsnum \<Rightarrow> bool" where
  "is_fin NZero = True"
| "is_fin (Fin r) = True"
| "is_fin _ = False"

definition inf_of :: "bool \<Rightarrow> jsnum" where
  "inf_of neg = (if neg then NInf else PInf)"

text \<open>A finite result, with the sign a zero result takes.\<close>

definition signed :: "bool \<Rightarrow> real \<Rightarrow> jsnum" where
  "signed neg r = (if r = 0 \<and> neg then NZero else Fin r)"

fun js_neg :: "jsnum \<Rightarrow> jsnum" where
  "js_neg NaN = NaN"
| "js_neg NInf = PInf"
| "js_neg PInf = NInf"
| "js_neg NZero = Fin 0"
| "js_neg (Fin r) = (if r = 0 then NZero else Fin (- r))"

text \<open>\<open>a + b\<close>: opposite infinities give NaN; a zero sum is negative only when both
  operands are the negative zero.\<close>

fun js_add :: "jsnum \<Rightarrow> jsnum \<Rightarrow> jsnum" where
  "js_add NaN b = NaN"
| "js_add a NaN = NaN"
| "js_add PInf NInf = NaN"
| "js_add NInf PInf = NaN"
| "js_add PInf b = PInf"
| "js_add a PInf = PInf"
| "js_add NInf b = NInf"
| "js_add a NInf = NInf"
| "js_add NZero NZero = NZero"
| "js_add a b = Fin (rv a + rv b)"

definition js_sub :: "jsnum \<Rightarrow> jsnum \<Rightarrow> jsnum" where
  "js_sub a b = js_add a (js_neg b)"

definition js_mul :: "jsnum \<Rightarrow> jsnum \<Rightarrow> jsnum" where
  "js_mul a b =
     (if a = NaN \<or> b = NaN then NaN
      else if is_inf a \<or> is_inf b then
        (if is_zero a \<or> is_zero b then NaN else inf_of (negative a \<noteq> negative b))
      else signed (negative a \<noteq> negative b) (rv a * rv b))"

definition js_div :: "jsnum \<Rightarrow> jsnum \<Rightarrow> jsnum" where
  "js_div a b =
     (if a = NaN \<or> b = NaN then NaN
      else if is_inf a then
        (if is_inf b then NaN else inf_of (negative a \<noteq> negative b))
      else if is_inf b then signed (negative a \<noteq> negative b) 0
      else if is_zero b then
        (if is_zero a then NaN else inf_of (negative a \<noteq> negative b))
      else signed (negative a \<noteq> negative b) (rv a / rv b))"

text \<open>\<open>x ** 2\<close>.\<close>

definition js_sq :: "jsnum \<Rightarrow> jsnum" where
  "js_sq a = js_mul a a"

fun js_sqrt :: "jsnum \<Rightarrow> jsnum" where
  "js_sqrt NaN = NaN"
| "js_sqrt NInf = NaN"
| "js_sqrt PInf = PInf"
| "js_sqrt NZero = NZero"
| "js_sqrt (Fin r) = (if r < 0 then NaN else Fin (sqrt r))"

fun js_floor :: "jsnum \<Rightarrow> jsnum" where
  "js_floor (Fin r) = Fin (of_int \<lfloor>r\<rfloor>)"
| "js_floor a = a"

fun js_cos :: "jsnum \<Rightarrow> jsnum" where
  "js_cos NZero = Fin 1"
| "js_cos (Fin r) = Fin (cos r)"
| "js_cos _ = NaN"

fun js_sin :: "jsnum \<Rightarrow> jsnum" where
  "js_sin NZero = NZero"
| "js_sin (Fin r) = Fin (sin r)"
| "js_sin _ = NaN"

definition js_PI :: jsnum where
  "js_PI = Fin pi"

text \<open>\<open>Math.atan2(y, x)\<close>, with the results ECMAScript lists for zeros and infinities.\<close>

fun js_atan2 :: "jsnum \<Rightarrow> jsnum \<Rightarrow> jsnum" where
  "js_atan2 NaN x = NaN"
| "js_atan2 y NaN = NaN"
| "js_atan2 PInf PInf = Fin (pi / 4)"
| "js_atan2 PInf NInf = Fin (3 * pi / 4)"
| "js_atan2 PInf x = Fin (pi / 2)"
| "js_atan2 NInf PInf = Fin (- pi / 4)"
| "js_atan2 NInf NInf = Fin (- 3 * pi / 4)"
| "js_atan2 NInf x = Fin (- pi / 2)"
| "js_atan2 NZero x = (if negative x then Fin (- pi) else NZero)"
| "js_atan2 (Fin y) PInf = (if y < 0 then NZero else Fin 0)"
| "js_atan2 (Fin y) NInf = (if y < 0 then Fin (- pi) else Fin pi)"
| "js_atan2 (Fin y) NZero =
     (if y < 0 then Fin (- pi / 2) else if y = 0 then Fin pi else Fin (pi / 2))"
| "js_atan2 (Fin y) (Fin x) =
     (if y = 0 then (if x < 0 then Fin pi else Fin 0)
      else if x = 0 then (if y < 0 then Fin (- pi / 2) else Fin (pi / 2))
      else if 0 < x then Fin (arctan (y / x))
      else if 0 < y then Fin (arctan (y / x) + pi)
      else Fin (arctan (y / x) - pi))"

text \<open>Comparisons: every comparison with NaN is false; the two zeros are equal.\<close>

fun js_lt :: "jsnum \<Rightarrow> jsnum \<Rightarrow> bool" where
  "js_lt NaN b = False"
| "js_lt a NaN = False"
| "js_lt PInf b = False"
| "js_lt a NInf = False"
| "js_lt NInf b = True"
| "js_lt a PInf = True"
| "js_lt a b = (rv a < rv b)"

definition js_gt :: "jsnum \<Rightarrow> jsnum \<Rightarrow> bool" where
  "js_gt a b = js_lt b a"

definition js_le :: "jsnum \<Rightarrow> jsnum \<Rightarrow> bool" where
  "js_le a b = (a \<noteq> NaN \<and> b \<noteq> NaN \<and> \<not> js_lt b a)"

definition js_ge :: "jsnum \<Rightarrow> jsnum \<Rightarrow> bool" where
  "js_ge a b = js_le b a"

text \<open>\<open>a === b\<close> on numbers.\<close>

definition js_seq :: "jsnum \<Rightarrow> jsnum \<Rightarrow> bool" where
  "js_seq a b = (a \<noteq> NaN \<and> b \<noteq> NaN \<and> (a = b \<or> (is_zero a \<and> is_zero b)))"

text \<open>Truthiness of a number (\<open>n || d\<close>, \<open>if (n)\<close>): false for NaN and the zeros.\<close>

definition js_truthy :: "jsnum \<Rightarrow> bool" where
  "js_truthy a = (a \<noteq> NaN \<and> \<not> is_zero a)"

text \<open>\<open>Math.min\<close> and \<open>Math.max\<close> of two numbers: NaN if either is, and the negative
  zero is below the positive one. With three arguments the source's calls are
  \<open>js_min (js_min a b) c\<close>.\<close>

definition js_min :: "jsnum \<Rightarrow> jsnum \<Rightarrow> jsnum" where
  "js_min a b =
     (if a = NaN \<or> b = NaN then NaN
      else if js_lt a b then a
      else if js_lt b a then b
      else if a = NZero then a else b)"

definition js_max :: "jsnum \<Rightarrow> jsnum \<Rightarrow> jsnum" where
  "js_max a b =
     (if a = NaN \<or> b = NaN then NaN
      else if js_lt a b then b
      else if js_lt b a then a
      else if a = NZero then b else a)"

section \<open>Text: lines, cleaning, words\<close>

text \<open>
  Strings are lists of characters, read as ASCII: \<open>toUpperCase\<close> and \<open>trim\<close> are
  modelled on the ASCII range.
\<close>

definition isLineTerminator :: "char \<Rightarrow> bool" where
  "isLineTerminator c = (c = CHR 0x0A \<or> c = CHR 0x0D)"

definition isWhitespace :: "char \<Rightarrow> bool" where
  "isWhitespace c = (c \<in> set [CHR 0x09, CHR 0x0A, CHR 0x0B, CHR 0x0C, CHR 0x0D, CHR '' ''])"

definition isDigit :: "char \<Rightarrow> bool" where
  "isDigit c = (c \<in> set ''0123456789'')"

definition isUpper :: "char \<Rightarrow> bool" where
  "isUpper c = (c \<in> set ''ABCDEFGHIJKLMNOPQRSTUVWXYZ'')"

text \<open>\<open>text.split('\n')\<close>: always at least one line.\<close>

fun split_lines :: "string \<Rightarrow> string list" where
  "split_lines [] = [[]]"
| "split_lines (c # cs) =
     (if c = CHR 0x0A then [] # split_lines cs
      else (case split_lines cs of
              [] \<Rightarrow> [[c]]
            | l # ls \<Rightarrow> (c # l) # ls))"

text \<open>\<open>line.replace(/;.*$/, '')\<close>: the text from the first semicolon that no line
  terminator follows (the dot of a regular expression does not match one).\<close>

fun stripSemicolon :: "string \<Rightarrow> string" where
  "stripSemicolon [] = []"
| "stripSemicolon (c # cs) =
     (if c = CHR '';'' \<and> \<not> list_ex isLineTerminator cs then []
      else c # stripSemicolon cs)"

text \<open>\<open>.replace(/\(.*?\)/g, '')\<close>: from an opening parenthesis to the first closing
  one, when no line terminator stands between them.\<close>

fun closeParen :: "string \<Rightarrow> string option" where
  "closeParen [] = None"
| "closeParen (c # cs) =
     (if c = CHR '')'' then Some cs
      else if isLineTerminator c then None
      else closeParen cs)"

lemma closeParen_length: "closeParen cs = Some r \<Longrightarrow> length r < length cs"
  by (induction cs) (auto split: if_splits)

function stripParens :: "string \<Rightarrow> string" where
  "stripParens [] = []"
| "stripParens (c # cs) =
     (if c = CHR ''(''
      then (case closeParen cs of
              Some r \<Rightarrow> stripParens r
            | None \<Rightarrow> c # stripParens cs)
      else c # stripParens cs)"
  by pat_completeness auto
termination
  by (relation "measure length") (auto dest: closeParen_length)

definition trim :: "string \<Rightarrow> string" where
  "trim s = rev (dropWhile isWhitespace (rev (dropWhile isWhitespace s)))"

definition toUpper :: "char \<Rightarrow> char" where
  "toUpper c =
     (case map_of (zip ''abcdefghijklmnopqrstuvwxyz'' ''ABCDEFGHIJKLMNOPQRSTUVWXYZ'') c of
        None \<Rightarrow> c
      | Some u \<Rightarrow> u)"

definition toUpperCase :: "string \<Rightarrow> string" where
  "toUpperCase s = map toUpper s"

definition cleanLine :: "string \<Rightarrow> string" where
  "cleanLine line = toUpperCase (trim (stripParens (stripSemicolon line)))"

text \<open>\<open>tokenize\<close>: the matches of \<open>/([A-Z])-?[\d.]+/g\<close>, left to right.\<close>

definition isNumChar :: "char \<Rightarrow> bool" where
  "isNumChar c = (isDigit c \<or> c = CHR ''.'')"

definition optMinus :: "string \<Rightarrow> string \<times> string" where
  "optMinus cs =
     (case cs of
        [] \<Rightarrow> ([], [])
      | c # r \<Rightarrow> if c = CHR ''-'' then ([c], r) else ([], cs))"

lemma optMinus_length: "length (snd (optMinus cs)) \<le> length cs"
  by (cases cs) (auto simp: optMinus_def)

function tokenize :: "string \<Rightarrow> string list" where
  "tokenize [] = []"
| "tokenize (c # cs) =
     (let ds = takeWhile isNumChar (snd (optMinus cs))
      in if isUpper c \<and> ds \<noteq> []
         then (c # fst (optMinus cs) @ ds) # tokenize (dropWhile isNumChar (snd (optMinus cs)))
         else tokenize cs)"
  by pat_completeness auto
termination
proof (relation "measure length")
  show "wf (measure length)" by simp
next
  fix c :: char and cs ds
  have "length (dropWhile isNumChar (snd (optMinus cs))) \<le> length (snd (optMinus cs))"
    by (rule length_dropWhile_le)
  also have "\<dots> \<le> length cs" by (rule optMinus_length)
  finally show "(dropWhile isNumChar (snd (optMinus cs)), c # cs) \<in> measure length"
    by simp
next
  fix c :: char and cs :: string
  show "(cs, c # cs) \<in> measure length" by simp
qed

text \<open>\<open>parseFloat\<close> on the text of a word after its letter, which has the form
  \<open>-?[0-9.]+\<close>: the digits up to the first dot and the digits after it, up to a
  second dot; NaN when there is no digit at all. The value is the exact decimal
  (a double would be the nearest one, and Infinity beyond the largest).\<close>

definition digitVal :: "char \<Rightarrow> nat" where
  "digitVal c = of_char c - 48"

definition digitsVal :: "string \<Rightarrow> nat" where
  "digitsVal ds = foldl (\<lambda>n c. 10 * n + digitVal c) 0 ds"

definition parseFloat :: "string \<Rightarrow> jsnum" where
  "parseFloat s =
     (let neg = (fst (optMinus s) \<noteq> []);
          r = snd (optMinus s);
          ip = takeWhile isDigit r;
          r1 = dropWhile isDigit r;
          fp = (case r1 of
                  [] \<Rightarrow> []
                | d # r2 \<Rightarrow> if d = CHR ''.'' then takeWhile isDigit r2 else [])
      in if ip = [] \<and> fp = [] then NaN
         else if neg
           then js_neg (Fin (real (digitsVal ip) + real (digitsVal fp) / 10 ^ length fp))
           else Fin (real (digitsVal ip) + real (digitsVal fp) / 10 ^ length fp))"

section \<open>The parser's state\<close>

text \<open>
  The fields of \<open>GCodeParser\<close> that the motion pass, the trimming and the cycle time
  read or write. The position \<open>this.x\<close>, \<open>this.y\<close>, \<open>this.z\<close> is \<open>this_x\<close>, \<open>this_y\<close>,
  \<open>this_z\<close>; a point \<open>{x, y, z}\<close> has the fields \<open>px\<close>, \<open>py\<close>, \<open>pz\<close>. The metadata
  pass (\<open>parseComments\<close>) and the tool table only fill the \<open>sheet\<close>, \<open>material\<close>,
  \<open>jobName\<close> and \<open>tools\<close> fields of the result, which nothing below reads; they are
  left out, and so is the formatted text of the cycle time.
\<close>

datatype move_type = rapid | cut | cw_arc | ccw_arc

record point =
  px :: jsnum
  py :: jsnum
  pz :: jsnum

record segment =
  seg_type :: move_type
  seg_from :: point
  seg_to :: point
  seg_tool :: "jsnum option"
  seg_line :: nat

record bbox =
  bmin :: point
  bmax :: point

record feed_sample =
  fs_dist :: jsnum
  fs_feed :: jsnum

record parser =
  this_x :: jsnum
  this_y :: jsnum
  this_z :: jsnum
  feedRate :: jsnum
  absoluteMode :: bool
  segments :: "segment list"
  bounds :: bbox
  lineCount :: nat
  moveCount :: nat
  programEnded :: bool
  lastMoveType :: "move_type option"
  currentTool :: "jsnum option"
  currentSpindleSpeed :: jsnum
  totalCutDist :: jsnum
  totalRapidDist :: jsnum
  feedSegments :: "feed_sample list"
  rapidRate :: jsnum
  toolChangeTime :: jsnum
  toolChangeCount :: nat

type_synonym params = "char \<rightharpoonup> jsnum"

definition emptyBounds :: bbox where
  "emptyBounds =
     \<lparr>bmin = \<lparr>px = PInf, py = PInf, pz = PInf\<rparr>,
      bmax = \<lparr>px = NInf, py = NInf, pz = NInf\<rparr>\<rparr>"

definition reset :: parser where
  "reset =
     \<lparr>this_x = Fin 0, this_y = Fin 0, this_z = Fin 0,
      feedRate = Fin 0,
      absoluteMode = True,
      segments = [],
      bounds = emptyBounds,
      lineCount = 0,
      moveCount = 0,
      programEnded = False,
      lastMoveType = None,
      currentTool = None,
      currentSpindleSpeed = Fin 0,
      totalCutDist = Fin 0,
      totalRapidDist = Fin 0,
      feedSegments = [],
      rapidRate = Fin 400,
      toolChangeTime = Fin 8,
      toolChangeCount = 0\<rparr>"

definition position :: "parser \<Rightarrow> point" where
  "position s = \<lparr>px = this_x s, py = this_y s, pz = this_z s\<rparr>"

text \<open>\<open>updateBounds\<close> rewrites the six numbers of \<open>this.bounds\<close>; \<open>extendBounds\<close> is
  what it does to them.\<close>

definition extendBounds :: "jsnum \<Rightarrow> jsnum \<Rightarrow> jsnum \<Rightarrow> bbox \<Rightarrow> bbox" where
  "extendBounds x y z b =
     \<lparr>bmin = \<lparr>px = js_min (px (bmin b)) x,
               py = js_min (py (bmin b)) y,
               pz = js_min (pz (bmin b)) z\<rparr>,
      bmax = \<lparr>px = js_max (px (bmax b)) x,
               py = js_max (py (bmax b)) y,
               pz = js_max (pz (bmax b)) z\<rparr>\<rparr>"

definition updateBounds :: "jsnum \<Rightarrow> jsnum \<Rightarrow> jsnum \<Rightarrow> parser \<Rightarrow> parser" where
  "updateBounds x y z s = s\<lparr>bounds := extendBounds x y z (bounds s)\<rparr>"

section \<open>Linear moves\<close>

text \<open>The target of one axis: the word replaces the coordinate in absolute mode and
  is added to it in incremental mode; without the word the coordinate stays.\<close>

definition resolveAxis :: "bool \<Rightarrow> jsnum \<Rightarrow> jsnum option \<Rightarrow> jsnum" where
  "resolveAxis absolute cur w =
     (case w of
        None \<Rightarrow> cur
      | Some v \<Rightarrow> if absolute then v else js_add cur v)"

definition distance :: "point \<Rightarrow> point \<Rightarrow> jsnum" where
  "distance a b =
     js_sqrt (js_add (js_add (js_sq (js_sub (px a) (px b))) (js_sq (js_sub (py a) (py b))))
                     (js_sq (js_sub (pz a) (pz b))))"

definition feedOrDefault :: "jsnum \<Rightarrow> jsnum" where
  "feedOrDefault f = (if js_truthy f then f else Fin 100)"

text \<open>The target of a linear move.\<close>

definition linearTarget :: "params \<Rightarrow> parser \<Rightarrow> point" where
  "linearTarget params s =
     \<lparr>px = resolveAxis (absoluteMode s) (this_x s) (params CHR ''X''),
      py = resolveAxis (absoluteMode s) (this_y s) (params CHR ''Y''),
      pz = resolveAxis (absoluteMode s) (this_z s) (params CHR ''Z'')\<rparr>"

definition processLinearMove :: "move_type \<Rightarrow> params \<Rightarrow> nat \<Rightarrow> parser \<Rightarrow> parser" where
  "processLinearMove type params lineNumber s =
     (let start = position s;
          target = linearTarget params s;
          s1 = s\<lparr>this_x := px target, this_y := py target, this_z := pz target\<rparr>
      in if js_seq (px start) (this_x s1) \<and> js_seq (py start) (this_y s1)
            \<and> js_seq (pz start) (this_z s1)
         then s1
         else
           (let dist = distance (position s1) start;
                s2 = (if type = rapid
                      then s1\<lparr>totalRapidDist := js_add (totalRapidDist s1) dist\<rparr>
                      else s1\<lparr>totalCutDist := js_add (totalCutDist s1) dist,
                              feedSegments := feedSegments s1 @
                                [\<lparr>fs_dist = dist, fs_feed = feedOrDefault (feedRate s1)\<rparr>]\<rparr>);
                s3 = updateBounds (this_x s2) (this_y s2) (this_z s2) s2;
                s4 = s3\<lparr>moveCount := moveCount s3 + 1\<rparr>
            in s4\<lparr>segments := segments s4 @
                 [\<lparr>seg_type = type, seg_from = start, seg_to = position s4,
                   seg_tool = currentTool s4, seg_line = lineNumber\<rparr>]\<rparr>))"

section \<open>Arcs\<close>

definition arcSegments :: nat where
  "arcSegments = 32"

definition orElse :: "jsnum option \<Rightarrow> jsnum \<Rightarrow> jsnum" where
  "orElse w d = (case w of None \<Rightarrow> d | Some v \<Rightarrow> v)"

text \<open>The end coordinate of an arc on one axis.\<close>

definition arcEnd :: "bool \<Rightarrow> jsnum \<Rightarrow> jsnum option \<Rightarrow> jsnum" where
  "arcEnd absolute cur w =
     (if absolute then orElse w cur else js_add cur (orElse w (Fin 0)))"

text \<open>The direction correction of the end angle.\<close>

definition correctedEndAngle :: "bool \<Rightarrow> jsnum \<Rightarrow> jsnum \<Rightarrow> jsnum" where
  "correctedEndAngle clockwise startAngle endAngle =
     (if clockwise
      then (if js_ge endAngle startAngle
            then js_sub endAngle (js_mul (Fin 2) js_PI) else endAngle)
      else (if js_le endAngle startAngle
            then js_add endAngle (js_mul (Fin 2) js_PI) else endAngle))"

text \<open>The angle of step \<open>s\<close>.\<close>

definition stepAngle :: "jsnum \<Rightarrow> jsnum \<Rightarrow> nat \<Rightarrow> jsnum" where
  "stepAngle startAngle angleSpan s =
     js_add startAngle (js_mul angleSpan (js_div (Fin (real s)) (Fin (real arcSegments))))"

record arc =
  arc_startAngle :: jsnum
  arc_angleSpan :: jsnum
  arc_centerX :: jsnum
  arc_centerY :: jsnum
  arc_radius :: jsnum
  arc_startZ :: jsnum
  arc_zSpan :: jsnum

text \<open>The vertex of step \<open>s\<close>.\<close>

definition arcVertex :: "arc \<Rightarrow> nat \<Rightarrow> point" where
  "arcVertex a s =
     (let t = js_div (Fin (real s)) (Fin (real arcSegments));
          angle = stepAngle (arc_startAngle a) (arc_angleSpan a) s
      in \<lparr>px = js_add (arc_centerX a) (js_mul (arc_radius a) (js_cos angle)),
          py = js_add (arc_centerY a) (js_mul (arc_radius a) (js_sin angle)),
          pz = js_add (arc_startZ a) (js_mul (arc_zSpan a) t)\<rparr>)"

text \<open>One pass of the loop body: the loop's variables are the previous vertex, the
  length so far and the parser.\<close>

definition arcStep :: "arc \<Rightarrow> nat \<Rightarrow> nat \<Rightarrow> point \<times> jsnum \<times> parser \<Rightarrow> point \<times> jsnum \<times> parser" where
  "arcStep a lineNumber s v =
     (case v of (prev, arcDist, p) \<Rightarrow>
        (let n = arcVertex a s;
             segDist = distance n prev;
             p1 = updateBounds (px n) (py n) (pz n) p;
             p2 = p1\<lparr>segments := segments p1 @
                    [\<lparr>seg_type = cut, seg_from = prev, seg_to = n,
                      seg_tool = currentTool p1, seg_line = lineNumber\<rparr>]\<rparr>
         in (n, js_add arcDist segDist, p2)))"

function arcLoop :: "arc \<Rightarrow> nat \<Rightarrow> nat \<Rightarrow> point \<times> jsnum \<times> parser \<Rightarrow> point \<times> jsnum \<times> parser" where
  "arcLoop a lineNumber s v =
     (if s \<le> arcSegments then arcLoop a lineNumber (s + 1) (arcStep a lineNumber s v) else v)"
  by pat_completeness auto
termination
  by (relation "measure (\<lambda>(a, l, s, v). Suc arcSegments - s)") auto

declare arcLoop.simps [simp del]

text \<open>The commanded end point of an arc.\<close>

definition arcEndPoint :: "params \<Rightarrow> parser \<Rightarrow> point" where
  "arcEndPoint params s =
     \<lparr>px = arcEnd (absoluteMode s) (this_x s) (params CHR ''X''),
      py = arcEnd (absoluteMode s) (this_y s) (params CHR ''Y''),
      pz = arcEnd (absoluteMode s) (this_z s) (params CHR ''Z'')\<rparr>"

text \<open>What \<open>processArc\<close> computes before its loop: centre, radius, angles and spans.\<close>

definition arcGeometry :: "move_type \<Rightarrow> params \<Rightarrow> parser \<Rightarrow> arc" where
  "arcGeometry type params s =
     (let start = position s;
          endp = arcEndPoint params s;
          i = orElse (params CHR ''I'') (Fin 0);
          j = orElse (params CHR ''J'') (Fin 0);
          centerX = js_add (px start) i;
          centerY = js_add (py start) j;
          radius = js_sqrt (js_add (js_mul i i) (js_mul j j));
          startAngle = js_atan2 (js_sub (py start) centerY) (js_sub (px start) centerX);
          endAngle = correctedEndAngle (type = cw_arc) startAngle
                       (js_atan2 (js_sub (py endp) centerY) (js_sub (px endp) centerX))
      in \<lparr>arc_startAngle = startAngle, arc_angleSpan = js_sub endAngle startAngle,
          arc_centerX = centerX, arc_centerY = centerY, arc_radius = radius,
          arc_startZ = pz start, arc_zSpan = js_sub (pz endp) (pz start)\<rparr>)"

definition processArc :: "move_type \<Rightarrow> params \<Rightarrow> nat \<Rightarrow> parser \<Rightarrow> parser" where
  "processArc type params lineNumber s =
     (case arcLoop (arcGeometry type params s) lineNumber 1 (position s, Fin 0, s) of
        (prev, arcDist, p) \<Rightarrow>
          p\<lparr>totalCutDist := js_add (totalCutDist p) arcDist,
            feedSegments := feedSegments p @
              [\<lparr>fs_dist = arcDist, fs_feed = feedOrDefault (feedRate p)\<rparr>],
            this_x := px (arcEndPoint params s),
            this_y := py (arcEndPoint params s),
            this_z := pz (arcEndPoint params s),
            moveCount := moveCount p + 1\<rparr>)"

section \<open>Park-move trimming\<close>

record cut_bounds =
  minX :: jsnum
  maxX :: jsnum
  minY :: jsnum
  maxY :: jsnum

definition emptyCutBounds :: cut_bounds where
  "emptyCutBounds = \<lparr>minX = PInf, maxX = NInf, minY = PInf, maxY = NInf\<rparr>"

definition cutBoundsStep :: "segment \<Rightarrow> cut_bounds \<Rightarrow> cut_bounds" where
  "cutBoundsStep seg cb =
     (if seg_type seg \<noteq> rapid
      then \<lparr>minX = js_min (js_min (minX cb) (px (seg_from seg))) (px (seg_to seg)),
            maxX = js_max (js_max (maxX cb) (px (seg_from seg))) (px (seg_to seg)),
            minY = js_min (js_min (minY cb) (py (seg_from seg))) (py (seg_to seg)),
            maxY = js_max (js_max (maxY cb) (py (seg_from seg))) (py (seg_to seg))\<rparr>
      else cb)"

definition cutBounds :: "segment list \<Rightarrow> cut_bounds" where
  "cutBounds segs = fold cutBoundsStep segs emptyCutBounds"

definition margin :: "cut_bounds \<Rightarrow> jsnum" where
  "margin cb = js_max (js_mul (js_sub (maxX cb) (minX cb)) (Fin (1 / 10))) (Fin 5)"

text \<open>The test of the loop: a rapid whose end point is outside the rectangle of the
  cuts, widened by the margin.\<close>

definition outsideEnvelope :: "cut_bounds \<Rightarrow> point \<Rightarrow> bool" where
  "outsideEnvelope cb q =
     (js_gt (px q) (js_add (maxX cb) (margin cb)) \<or> js_lt (px q) (js_sub (minX cb) (margin cb))
      \<or> js_gt (py q) (js_add (maxY cb) (margin cb)) \<or> js_lt (py q) (js_sub (minY cb) (margin cb)))"

definition isParkMove :: "cut_bounds \<Rightarrow> segment \<Rightarrow> bool" where
  "isParkMove cb seg = (seg_type seg = rapid \<and> outsideEnvelope cb (seg_to seg))"

function trimLoop :: "cut_bounds \<Rightarrow> segment list \<Rightarrow> segment list" where
  "trimLoop cb segs =
     (if segs \<noteq> [] then
        (if isParkMove cb (last segs) then trimLoop cb (butlast segs) else segs)
      else segs)"
  by pat_completeness auto
termination
  by (relation "measure (\<lambda>(cb, segs). length segs)") auto

declare trimLoop.simps [simp del]

definition boundsOfSegment :: "segment \<Rightarrow> parser \<Rightarrow> parser" where
  "boundsOfSegment seg s =
     updateBounds (px (seg_to seg)) (py (seg_to seg)) (pz (seg_to seg))
       (updateBounds (px (seg_from seg)) (py (seg_from seg)) (pz (seg_from seg)) s)"

definition trimParkMoves :: "parser \<Rightarrow> parser" where
  "trimParkMoves s =
     (let cb = cutBounds (segments s);
          s1 = s\<lparr>segments := trimLoop cb (segments s)\<rparr>;
          s2 = s1\<lparr>bounds := emptyBounds\<rparr>
      in fold boundsOfSegment (segments s2) s2)"

section \<open>Cycle time\<close>

record cycle_time =
  rapidTime :: jsnum
  cutTime :: jsnum
  ct_toolChangeTime :: jsnum
  totalTime :: jsnum
  ct_totalCutDist :: jsnum
  ct_totalRapidDist :: jsnum

definition cutTimeStep :: "feed_sample \<Rightarrow> jsnum \<Rightarrow> jsnum" where
  "cutTimeStep seg cutTimeSec =
     (let feed = (if js_gt (fs_feed seg) (Fin 0) then fs_feed seg else Fin 100)
      in js_add cutTimeSec (js_mul (js_div (fs_dist seg) feed) (Fin 60)))"

definition calculateCycleTime :: "parser \<Rightarrow> cycle_time" where
  "calculateCycleTime s =
     (let rapidTimeSec = js_mul (js_div (totalRapidDist s) (rapidRate s)) (Fin 60);
          cutTimeSec = fold cutTimeStep (feedSegments s) (Fin 0);
          tcTime = js_mul (js_max (Fin 0) (js_sub (Fin (real (toolChangeCount s))) (Fin 1)))
                     (toolChangeTime s);
          totalSec = js_add (js_add rapidTimeSec cutTimeSec) tcTime
      in \<lparr>rapidTime = rapidTimeSec, cutTime = cutTimeSec, ct_toolChangeTime = tcTime,
          totalTime = totalSec, ct_totalCutDist = totalCutDist s,
          ct_totalRapidDist = totalRapidDist s\<rparr>)"

section \<open>Lines\<close>

text \<open>The first loop over the words of a line: G words are collected, N words
  dropped, T and S words applied to the parser at once, every other letter stored
  as a parameter (the last word of a letter wins).\<close>

definition wordStep :: "string \<Rightarrow> jsnum list \<times> params \<times> parser \<Rightarrow> jsnum list \<times> params \<times> parser" where
  "wordStep word v =
     (case v of (gCodes, params, s) \<Rightarrow>
        (case word of
           [] \<Rightarrow> v
         | letter # digits \<Rightarrow>
             (let val = parseFloat digits in
              if letter = CHR ''G'' then (gCodes @ [val], params, s)
              else if letter = CHR ''N'' then v
              else if letter = CHR ''M'' then (gCodes, params(letter \<mapsto> val), s)
              else if letter = CHR ''T'' then
                (gCodes, params,
                 s\<lparr>currentTool := Some (js_floor val),
                   toolChangeCount := toolChangeCount s + 1\<rparr>)
              else if letter = CHR ''S'' then (gCodes, params, s\<lparr>currentSpindleSpeed := val\<rparr>)
              else (gCodes, params(letter \<mapsto> val), s))))"

text \<open>The codes that end the processing of the line.\<close>

definition isSkipCode :: "jsnum \<Rightarrow> bool" where
  "isSkipCode g = (js_seq g (Fin 28) \<or> js_seq g (Fin 30) \<or> js_seq g (Fin 399))"

text \<open>The second loop, over the G codes: the flag says that the line returned at
  G28, G30 or G399.\<close>

fun applyGCodes :: "jsnum list \<Rightarrow> parser \<Rightarrow> bool \<times> parser" where
  "applyGCodes [] s = (False, s)"
| "applyGCodes (g # gs) s =
     (if js_seq g (Fin 90) then applyGCodes gs (s\<lparr>absoluteMode := True\<rparr>)
      else if js_seq g (Fin 91) then applyGCodes gs (s\<lparr>absoluteMode := False\<rparr>)
      else if isSkipCode g then (True, s)
      else applyGCodes gs s)"

definition moveTypeStep :: "jsnum \<Rightarrow> move_type option \<Rightarrow> move_type option" where
  "moveTypeStep g m =
     (if js_seq g (Fin 0) then Some rapid
      else if js_seq g (Fin 1) then Some cut
      else if js_seq g (Fin 2) then Some cw_arc
      else if js_seq g (Fin 3) then Some ccw_arc
      else m)"

text \<open>\<open>'X' in params\<close>.\<close>

definition hasWord :: "params \<Rightarrow> char \<Rightarrow> bool" where
  "hasWord params c = (case params c of None \<Rightarrow> False | Some v \<Rightarrow> True)"

definition moveTypeOf :: "jsnum list \<Rightarrow> params \<Rightarrow> parser \<Rightarrow> move_type option" where
  "moveTypeOf gCodes params s =
     (let m = fold moveTypeStep gCodes None in
      if m = None \<and> (hasWord params CHR ''X'' \<or> hasWord params CHR ''Y'' \<or> hasWord params CHR ''Z'')
      then (case lastMoveType s of None \<Rightarrow> Some cut | Some l \<Rightarrow> Some l)
      else m)"

definition dispatch :: "move_type option \<Rightarrow> params \<Rightarrow> nat \<Rightarrow> parser \<Rightarrow> parser" where
  "dispatch m params lineNumber s =
     (case m of
        None \<Rightarrow> s
      | Some moveType \<Rightarrow>
          (if moveType = cw_arc \<or> moveType = ccw_arc
           then processArc moveType params lineNumber (s\<lparr>lastMoveType := Some moveType\<rparr>)
           else processLinearMove moveType params lineNumber (s\<lparr>lastMoveType := Some moveType\<rparr>)))"

definition ignoredLine :: "string \<Rightarrow> bool" where
  "ignoredLine l = (case l of [] \<Rightarrow> True | c # cs \<Rightarrow> c = CHR ''%'' \<or> c = CHR ''O'')"

definition parseLine :: "string \<Rightarrow> nat \<Rightarrow> parser \<Rightarrow> parser" where
  "parseLine line lineNumber s =
     (if programEnded s then s
      else if ignoredLine (cleanLine line) then s
      else
        (let words = tokenize (cleanLine line) in
         if words = [] then s
         else
           (case fold wordStep words ([], Map.empty, s) of
              (gCodes, params, s1) \<Rightarrow>
                (case applyGCodes gCodes s1 of
                   (skipped, s2) \<Rightarrow>
                     if skipped then s2
                     else
                       (let s3 = dispatch (moveTypeOf gCodes params s2) params lineNumber s2;
                            s4 = (case params CHR ''F'' of
                                    None \<Rightarrow> s3
                                  | Some f \<Rightarrow> s3\<lparr>feedRate := f\<rparr>)
                        in if list_ex (\<lambda>w. w = ''M30'' \<or> w = ''M02'') words
                           then s4\<lparr>programEnded := True\<rparr> else s4)))))"

section \<open>The entry point\<close>

fun parseLines :: "string list \<Rightarrow> nat \<Rightarrow> parser \<Rightarrow> parser" where
  "parseLines [] i s = s"
| "parseLines (l # ls) i s = parseLines ls (i + 1) (parseLine l (i + 1) s)"

text \<open>The parser after the motion pass, before the trimming.\<close>

definition parseMoves :: "string \<Rightarrow> parser" where
  "parseMoves gcodeText =
     (let lines = split_lines gcodeText
      in parseLines lines 0 (reset\<lparr>lineCount := length lines\<rparr>))"

record result =
  res_segments :: "segment list"
  res_bounds :: bbox
  res_lineCount :: nat
  res_moveCount :: nat
  res_cycleTime :: cycle_time

definition parse :: "string \<Rightarrow> result" where
  "parse gcodeText =
     (let s = trimParkMoves (parseMoves gcodeText)
      in \<lparr>res_segments = segments s, res_bounds = bounds s,
          res_lineCount = lineCount s, res_moveCount = length (segments s),
          res_cycleTime = calculateCycleTime s\<rparr>)"

section \<open>Notions used in the statements\<close>

text \<open>The segment that step \<open>i\<close> of the loop pushes, and the 32 segments of a whole
  arc in closed form.\<close>

definition arcSegment :: "arc \<Rightarrow> nat \<Rightarrow> jsnum option \<Rightarrow> point \<Rightarrow> nat \<Rightarrow> segment" where
  "arcSegment a l tool prev i =
     \<lparr>seg_type = cut, seg_from = prev, seg_to = arcVertex a i, seg_tool = tool, seg_line = l\<rparr>"

definition arcPolyline :: "arc \<Rightarrow> nat \<Rightarrow> jsnum option \<Rightarrow> point \<Rightarrow> segment list" where
  "arcPolyline a l tool start =
     map (\<lambda>i. arcSegment a l tool (if i = 1 then start else arcVertex a (i - 1)) i)
       [1..<Suc arcSegments]"

text \<open>The end angle of an arc as \<open>Math.atan2\<close> delivers it, before the direction
  correction.\<close>

definition arcRawEndAngle :: "params \<Rightarrow> parser \<Rightarrow> jsnum" where
  "arcRawEndAngle params s =
     (let endp = arcEndPoint params s;
          centerX = js_add (this_x s) (orElse (params CHR ''I'') (Fin 0));
          centerY = js_add (this_y s) (orElse (params CHR ''J'') (Fin 0))
      in js_atan2 (js_sub (py endp) centerY) (js_sub (px endp) centerX))"

text \<open>What \<open>boundsOfSegment\<close> does to the bounds.\<close>

definition segmentBounds :: "segment \<Rightarrow> bbox \<Rightarrow> bbox" where
  "segmentBounds seg b =
     extendBounds (px (seg_to seg)) (py (seg_to seg)) (pz (seg_to seg))
       (extendBounds (px (seg_from seg)) (py (seg_from seg)) (pz (seg_from seg)) b)"

text \<open>The values of one coordinate over the end points of a segment list, in the order
  the bounds visit them.\<close>

definition coords :: "(point \<Rightarrow> jsnum) \<Rightarrow> segment list \<Rightarrow> jsnum list" where
  "coords c segs = concat (map (\<lambda>seg. [c (seg_from seg), c (seg_to seg)]) segs)"

text \<open>The G codes of a line, in the order of its words, as the first loop of
  \<open>parseLine\<close> collects them; and the number of its T words.\<close>

definition isWord :: "char \<Rightarrow> string \<Rightarrow> bool" where
  "isWord c w = (case w of [] \<Rightarrow> False | letter # digits \<Rightarrow> letter = c)"

definition wordValue :: "string \<Rightarrow> jsnum" where
  "wordValue w = (case w of [] \<Rightarrow> NaN | letter # digits \<Rightarrow> parseFloat digits)"

definition lineGCodes :: "string \<Rightarrow> jsnum list" where
  "lineGCodes line = map wordValue (filter (isWord CHR ''G'') (tokenize (cleanLine line)))"

definition lineToolWords :: "string \<Rightarrow> nat" where
  "lineToolWords line = length (filter (isWord CHR ''T'') (tokenize (cleanLine line)))"

text \<open>The value of the last word of a line with a given letter, if there is one.\<close>

definition lastValue :: "char \<Rightarrow> string list \<Rightarrow> jsnum option" where
  "lastValue c ws =
     (case rev (filter (isWord c) ws) of [] \<Rightarrow> None | w # r \<Rightarrow> Some (wordValue w))"

definition lastWordValue :: "char \<Rightarrow> string \<Rightarrow> jsnum option" where
  "lastWordValue c line = lastValue c (tokenize (cleanLine line))"

text \<open>A finite angle between \<open>-\<pi>\<close> and \<open>\<pi>\<close>, as \<open>Math.atan2\<close> returns.\<close>

definition inTurn :: "jsnum \<Rightarrow> bool" where
  "inTurn a = (is_fin a \<and> - pi \<le> rv a \<and> rv a \<le> pi)"

section \<open>Unfolding sets for evaluation\<close>

lemmas text_defs =
  cleanLine_def trim_def toUpperCase_def toUpper_def isWhitespace_def isUpper_def
  isNumChar_def isDigit_def optMinus_def isLineTerminator_def ignoredLine_def

lemmas num_defs =
  parseFloat_def digitsVal_def digitVal_def js_seq_def js_sub_def js_mul_def js_div_def
  js_sq_def js_min_def js_max_def js_gt_def js_le_def js_ge_def js_truthy_def signed_def
  inf_of_def

lemmas line_defs =
  parseLine_def wordStep_def isSkipCode_def moveTypeStep_def moveTypeOf_def hasWord_def
  dispatch_def processLinearMove_def linearTarget_def resolveAxis_def position_def
  updateBounds_def extendBounds_def distance_def feedOrDefault_def reset_def emptyBounds_def

lemmas trim_defs =
  trimParkMoves_def cutBounds_def cutBoundsStep_def emptyCutBounds_def margin_def
  isParkMove_def outsideEnvelope_def boundsOfSegment_def trimLoop.simps

section \<open>Scenario A\<close>

lemma moves_scenario_A:
  "parseMoves ''G90\<newline>G0 X10 Y0\<newline>G1 X10 Y10 F100\<newline>'' =
     \<lparr>this_x = Fin 10, this_y = Fin 10, this_z = Fin 0, feedRate = Fin 100,
      absoluteMode = True,
      segments =
        [\<lparr>seg_type = rapid,
          seg_from = \<lparr>px = Fin 0, py = Fin 0, pz = Fin 0\<rparr>,
          seg_to = \<lparr>px = Fin 10, py = Fin 0, pz = Fin 0\<rparr>,
          seg_tool = None, seg_line = 2\<rparr>,
         \<lparr>seg_type = cut,
          seg_from = \<lparr>px = Fin 10, py = Fin 0, pz = Fin 0\<rparr>,
          seg_to = \<lparr>px = Fin 10, py = Fin 10, pz = Fin 0\<rparr>,
          seg_tool = None, seg_line = 3\<rparr>],
      bounds =
        \<lparr>bmin = \<lparr>px = Fin 10, py = Fin 0, pz = Fin 0\<rparr>,
         bmax = \<lparr>px = Fin 10, py = Fin 10, pz = Fin 0\<rparr>\<rparr>,
      lineCount = 4, moveCount = 2,
      programEnded = False, lastMoveType = Some cut,
      currentTool = None, currentSpindleSpeed = Fin 0,
      totalCutDist = Fin 10, totalRapidDist = Fin 10,
      feedSegments = [\<lparr>fs_dist = Fin 10, fs_feed = Fin 100\<rparr>],
      rapidRate = Fin 400, toolChangeTime = Fin 8, toolChangeCount = 0\<rparr>"
  by (simp add: parseMoves_def text_defs num_defs line_defs Let_def)

text \<open>
  C1. For the text of three lines \<open>G90\<close>, \<open>G0 X10 Y0\<close>, \<open>G1 X10 Y10 F100\<close> (each ended
  by a newline), \<open>parse\<close> returns exactly two segments, a rapid from (0,0,0) to
  (10,0,0) on line 2 and a cut from (10,0,0) to (10,10,0) on line 3, and the
  returned bounds have the minimum (0,0,0) and the maximum (10,10,0).
\<close>

theorem parse_scenario_A:
  "res_segments (parse ''G90\<newline>G0 X10 Y0\<newline>G1 X10 Y10 F100\<newline>'') =
     [\<lparr>seg_type = rapid,
       seg_from = \<lparr>px = Fin 0, py = Fin 0, pz = Fin 0\<rparr>,
       seg_to = \<lparr>px = Fin 10, py = Fin 0, pz = Fin 0\<rparr>,
       seg_tool = None, seg_line = 2\<rparr>,
      \<lparr>seg_type = cut,
       seg_from = \<lparr>px = Fin 10, py = Fin 0, pz = Fin 0\<rparr>,
       seg_to = \<lparr>px = Fin 10, py = Fin 10, pz = Fin 0\<rparr>,
       seg_tool = None, seg_line = 3\<rparr>]
   \<and> res_bounds (parse ''G90\<newline>G0 X10 Y0\<newline>G1 X10 Y10 F100\<newline>'') =
     \<lparr>bmin = \<lparr>px = Fin 0, py = Fin 0, pz = Fin 0\<rparr>,
      bmax = \<lparr>px = Fin 10, py = Fin 10, pz = Fin 0\<rparr>\<rparr>
   \<and> res_moveCount (parse ''G90\<newline>G0 X10 Y0\<newline>G1 X10 Y10 F100\<newline>'') = 2"
  unfolding parse_def moves_scenario_A
  by (simp add: trim_defs num_defs updateBounds_def extendBounds_def emptyBounds_def Let_def)

section \<open>What each operation leaves alone\<close>

lemma updateBounds_fields [simp]:
  "this_x (updateBounds x y z s) = this_x s"
  "this_y (updateBounds x y z s) = this_y s"
  "this_z (updateBounds x y z s) = this_z s"
  "feedRate (updateBounds x y z s) = feedRate s"
  "absoluteMode (updateBounds x y z s) = absoluteMode s"
  "segments (updateBounds x y z s) = segments s"
  "lineCount (updateBounds x y z s) = lineCount s"
  "moveCount (updateBounds x y z s) = moveCount s"
  "programEnded (updateBounds x y z s) = programEnded s"
  "lastMoveType (updateBounds x y z s) = lastMoveType s"
  "currentTool (updateBounds x y z s) = currentTool s"
  "currentSpindleSpeed (updateBounds x y z s) = currentSpindleSpeed s"
  "totalCutDist (updateBounds x y z s) = totalCutDist s"
  "totalRapidDist (updateBounds x y z s) = totalRapidDist s"
  "feedSegments (updateBounds x y z s) = feedSegments s"
  "rapidRate (updateBounds x y z s) = rapidRate s"
  "toolChangeTime (updateBounds x y z s) = toolChangeTime s"
  "toolChangeCount (updateBounds x y z s) = toolChangeCount s"
  "bounds (updateBounds x y z s) = extendBounds x y z (bounds s)"
  by (simp_all add: updateBounds_def)

lemma arcStep_fixed [simp]:
  "toolChangeTime (snd (snd (arcStep a l k v))) = toolChangeTime (snd (snd v))"
  "toolChangeCount (snd (snd (arcStep a l k v))) = toolChangeCount (snd (snd v))"
  "currentTool (snd (snd (arcStep a l k v))) = currentTool (snd (snd v))"
  by (simp_all add: arcStep_def Let_def split: prod.splits)

lemma arcLoop_fixed [simp]:
  "toolChangeTime (snd (snd (arcLoop a l k v))) = toolChangeTime (snd (snd v))"
  "toolChangeCount (snd (snd (arcLoop a l k v))) = toolChangeCount (snd (snd v))"
  "currentTool (snd (snd (arcLoop a l k v))) = currentTool (snd (snd v))"
  by (induction a l k v rule: arcLoop.induct; subst arcLoop.simps; simp)+

lemma processArc_fixed [simp]:
  "toolChangeTime (processArc t ps l s) = toolChangeTime s"
  "toolChangeCount (processArc t ps l s) = toolChangeCount s"
  "currentTool (processArc t ps l s) = currentTool s"
  by (simp_all add: processArc_def Let_def case_prod_beta)

lemma processLinearMove_fixed [simp]:
  "toolChangeTime (processLinearMove t ps l s) = toolChangeTime s"
  "toolChangeCount (processLinearMove t ps l s) = toolChangeCount s"
  "currentTool (processLinearMove t ps l s) = currentTool s"
  by (simp_all add: processLinearMove_def Let_def)

lemma dispatch_fixed [simp]:
  "toolChangeTime (dispatch m ps l s) = toolChangeTime s"
  "toolChangeCount (dispatch m ps l s) = toolChangeCount s"
  "currentTool (dispatch m ps l s) = currentTool s"
  by (simp_all add: dispatch_def split: option.splits)

lemma wordStep_toolChangeTime [simp]:
  "toolChangeTime (snd (snd (wordStep w v))) = toolChangeTime (snd (snd v))"
  by (simp add: wordStep_def Let_def split: prod.splits list.splits)

lemma fold_wordStep_toolChangeTime [simp]:
  "toolChangeTime (snd (snd (fold wordStep ws v))) = toolChangeTime (snd (snd v))"
  by (induction ws arbitrary: v) simp_all

lemma applyGCodes_fixed [simp]:
  "toolChangeTime (snd (applyGCodes gs s)) = toolChangeTime s"
  "toolChangeCount (snd (applyGCodes gs s)) = toolChangeCount s"
  "currentTool (snd (applyGCodes gs s)) = currentTool s"
  "currentSpindleSpeed (snd (applyGCodes gs s)) = currentSpindleSpeed s"
  by (induction gs arbitrary: s; simp)+

lemma parseLine_toolChangeTime [simp]:
  "toolChangeTime (parseLine line n s) = toolChangeTime s"
  by (simp add: parseLine_def Let_def case_prod_beta split: option.splits)

lemma parseLines_toolChangeTime [simp]:
  "toolChangeTime (parseLines ls i s) = toolChangeTime s"
  by (induction ls arbitrary: i s) simp_all

lemma parseMoves_toolChangeTime [simp]: "toolChangeTime (parseMoves t) = Fin 8"
  by (simp add: parseMoves_def Let_def reset_def)

lemma fold_boundsOfSegment_fields [simp]:
  "segments (fold boundsOfSegment segs s) = segments s"
  "toolChangeTime (fold boundsOfSegment segs s) = toolChangeTime s"
  "toolChangeCount (fold boundsOfSegment segs s) = toolChangeCount s"
  "totalRapidDist (fold boundsOfSegment segs s) = totalRapidDist s"
  "totalCutDist (fold boundsOfSegment segs s) = totalCutDist s"
  "feedSegments (fold boundsOfSegment segs s) = feedSegments s"
  "rapidRate (fold boundsOfSegment segs s) = rapidRate s"
  "lineCount (fold boundsOfSegment segs s) = lineCount s"
  by (induction segs arbitrary: s; simp add: boundsOfSegment_def)+

lemma trimParkMoves_fields [simp]:
  "segments (trimParkMoves s) = trimLoop (cutBounds (segments s)) (segments s)"
  "toolChangeTime (trimParkMoves s) = toolChangeTime s"
  "toolChangeCount (trimParkMoves s) = toolChangeCount s"
  "totalRapidDist (trimParkMoves s) = totalRapidDist s"
  "totalCutDist (trimParkMoves s) = totalCutDist s"
  "feedSegments (trimParkMoves s) = feedSegments s"
  "rapidRate (trimParkMoves s) = rapidRate s"
  "lineCount (trimParkMoves s) = lineCount s"
  by (simp_all add: trimParkMoves_def Let_def)

lemma toolChange_value:
  "js_mul (js_max (Fin 0) (js_sub (Fin (real n)) (Fin 1))) (Fin 8) = Fin (max 0 (real n - 1) * 8)"
  by (simp add: js_mul_def js_max_def js_sub_def signed_def max_def)

section \<open>Zero-length moves\<close>

lemma js_seq_self: "js_seq a a \<longleftrightarrow> a \<noteq> NaN"
  by (simp add: js_seq_def)

lemma linearTarget_no_words:
  "params CHR ''X'' = None \<Longrightarrow> params CHR ''Y'' = None \<Longrightarrow> params CHR ''Z'' = None \<Longrightarrow>
   linearTarget params s = position s"
  by (simp add: linearTarget_def resolveAxis_def position_def)

lemma processLinearMove_dropped_iff:
  "segments (processLinearMove type params lineNumber s) = segments s \<longleftrightarrow>
     js_seq (this_x s) (px (linearTarget params s))
     \<and> js_seq (this_y s) (py (linearTarget params s))
     \<and> js_seq (this_z s) (pz (linearTarget params s))"
  "moveCount (processLinearMove type params lineNumber s) = moveCount s \<longleftrightarrow>
     js_seq (this_x s) (px (linearTarget params s))
     \<and> js_seq (this_y s) (py (linearTarget params s))
     \<and> js_seq (this_z s) (pz (linearTarget params s))"
  by (simp_all add: processLinearMove_def linearTarget_def position_def Let_def)

text \<open>
  C8 (as amended). For every linear move whose target is equal to the starting
  position under \<open>===\<close> on each of x, y and z (which no coordinate that is NaN
  satisfies), no segment is appended, no rapid or cut distance and no feed sample
  is accumulated, the move counter does not advance and the bounds are not
  updated; the position becomes the target. A move is dropped (no segment
  appended, the move counter not advanced) exactly when its target is equal to the
  starting position in that sense. A move with no axis words has the starting
  position as its target, and it is dropped exactly when no coordinate of the
  position is NaN.
\<close>

theorem zero_length_move_dropped:
  "(js_seq (this_x s) (px (linearTarget params s))
      \<and> js_seq (this_y s) (py (linearTarget params s))
      \<and> js_seq (this_z s) (pz (linearTarget params s)) \<longrightarrow>
     segments (processLinearMove type params lineNumber s) = segments s
     \<and> totalRapidDist (processLinearMove type params lineNumber s) = totalRapidDist s
     \<and> totalCutDist (processLinearMove type params lineNumber s) = totalCutDist s
     \<and> feedSegments (processLinearMove type params lineNumber s) = feedSegments s
     \<and> moveCount (processLinearMove type params lineNumber s) = moveCount s
     \<and> bounds (processLinearMove type params lineNumber s) = bounds s
     \<and> position (processLinearMove type params lineNumber s) = linearTarget params s)
   \<and> ((segments (processLinearMove type params lineNumber s) = segments s) =
        (js_seq (this_x s) (px (linearTarget params s))
         \<and> js_seq (this_y s) (py (linearTarget params s))
         \<and> js_seq (this_z s) (pz (linearTarget params s))))
   \<and> ((moveCount (processLinearMove type params lineNumber s) = moveCount s) =
        (js_seq (this_x s) (px (linearTarget params s))
         \<and> js_seq (this_y s) (py (linearTarget params s))
         \<and> js_seq (this_z s) (pz (linearTarget params s))))
   \<and> (params CHR ''X'' = None \<and> params CHR ''Y'' = None \<and> params CHR ''Z'' = None \<longrightarrow>
        linearTarget params s = position s
        \<and> ((segments (processLinearMove type params lineNumber s) = segments s) =
             (this_x s \<noteq> NaN \<and> this_y s \<noteq> NaN \<and> this_z s \<noteq> NaN))
        \<and> ((moveCount (processLinearMove type params lineNumber s) = moveCount s) =
             (this_x s \<noteq> NaN \<and> this_y s \<noteq> NaN \<and> this_z s \<noteq> NaN)))"
proof (intro conjI impI)
  assume "params CHR ''X'' = None \<and> params CHR ''Y'' = None \<and> params CHR ''Z'' = None"
  then have t: "linearTarget params s = position s"
    by (simp add: linearTarget_no_words)
  then show "linearTarget params s = position s" .
  show "(segments (processLinearMove type params lineNumber s) = segments s) =
             (this_x s \<noteq> NaN \<and> this_y s \<noteq> NaN \<and> this_z s \<noteq> NaN)"
    unfolding processLinearMove_dropped_iff t by (simp add: position_def js_seq_self)
  show "(moveCount (processLinearMove type params lineNumber s) = moveCount s) =
             (this_x s \<noteq> NaN \<and> this_y s \<noteq> NaN \<and> this_z s \<noteq> NaN)"
    unfolding processLinearMove_dropped_iff t by (simp add: position_def js_seq_self)
qed (simp_all add: processLinearMove_def linearTarget_def position_def Let_def)

theorem zero_length_move_dropped_witness:
  "js_seq (this_x reset) (px (linearTarget [CHR ''X'' \<mapsto> NZero] reset))
   \<and> js_seq (this_y reset) (py (linearTarget [CHR ''X'' \<mapsto> NZero] reset))
   \<and> js_seq (this_z reset) (pz (linearTarget [CHR ''X'' \<mapsto> NZero] reset))
   \<and> segments (processLinearMove rapid [CHR ''X'' \<mapsto> NZero] 1 reset) = []
   \<and> moveCount (processLinearMove rapid [CHR ''X'' \<mapsto> NZero] 1 reset) = 0
   \<and> this_x (processLinearMove rapid [CHR ''X'' \<mapsto> NZero] 1 reset) = NZero
   \<and> segments (processLinearMove cut Map.empty 1 reset) = segments reset
   \<and> segments (processLinearMove cut Map.empty 1 (reset\<lparr>this_y := NaN\<rparr>))
        \<noteq> segments (reset\<lparr>this_y := NaN\<rparr>)"
proof -
  have h: "js_seq (this_x reset) (px (linearTarget [CHR ''X'' \<mapsto> NZero] reset))
    \<and> js_seq (this_y reset) (py (linearTarget [CHR ''X'' \<mapsto> NZero] reset))
    \<and> js_seq (this_z reset) (pz (linearTarget [CHR ''X'' \<mapsto> NZero] reset))"
    by (simp add: linearTarget_def resolveAxis_def reset_def js_seq_def)
  have e: "(Map.empty :: params) CHR ''X'' = None \<and> (Map.empty :: params) CHR ''Y'' = None
    \<and> (Map.empty :: params) CHR ''Z'' = None" by simp
  have a: "segments (processLinearMove rapid [CHR ''X'' \<mapsto> NZero] 1 reset) = segments reset
    \<and> moveCount (processLinearMove rapid [CHR ''X'' \<mapsto> NZero] 1 reset) = moveCount reset
    \<and> position (processLinearMove rapid [CHR ''X'' \<mapsto> NZero] 1 reset) =
        linearTarget [CHR ''X'' \<mapsto> NZero] reset"
    using zero_length_move_dropped [of reset "[CHR ''X'' \<mapsto> NZero]" rapid 1] h by blast
  have b: "(segments (processLinearMove cut Map.empty 1 reset) = segments reset) =
      (this_x reset \<noteq> NaN \<and> this_y reset \<noteq> NaN \<and> this_z reset \<noteq> NaN)"
    using zero_length_move_dropped [of reset Map.empty cut 1] e by blast
  have c: "(segments (processLinearMove cut Map.empty 1 (reset\<lparr>this_y := NaN\<rparr>))
        = segments (reset\<lparr>this_y := NaN\<rparr>)) =
      (this_x (reset\<lparr>this_y := NaN\<rparr>) \<noteq> NaN \<and> this_y (reset\<lparr>this_y := NaN\<rparr>) \<noteq> NaN
        \<and> this_z (reset\<lparr>this_y := NaN\<rparr>) \<noteq> NaN)"
    using zero_length_move_dropped [of "reset\<lparr>this_y := NaN\<rparr>" Map.empty cut 1] e by blast
  have p: "this_x (processLinearMove rapid [CHR ''X'' \<mapsto> NZero] 1 reset) = NZero"
    using a by (simp add: position_def linearTarget_def resolveAxis_def reset_def)
  have b': "segments (processLinearMove cut Map.empty 1 reset) = segments reset"
    using b by (simp add: reset_def)
  have c': "segments (processLinearMove cut Map.empty 1 (reset\<lparr>this_y := NaN\<rparr>))
        \<noteq> segments (reset\<lparr>this_y := NaN\<rparr>)"
    using c by simp
  from a have a': "segments (processLinearMove rapid [CHR ''X'' \<mapsto> NZero] 1 reset) = []"
    "moveCount (processLinearMove rapid [CHR ''X'' \<mapsto> NZero] 1 reset) = 0"
    by (simp_all add: reset_def)
  show ?thesis using h a' p b' c' by blast
qed

text \<open>
  As stated, with bit-identical positions, the claim fails where a coordinate is
  NaN: after \<open>G1 X.\<close> the position is (NaN, 0, 0), and the line \<open>G1\<close>, whose target
  is that same position, appends a second segment from (NaN, 0, 0) to (NaN, 0, 0),
  advances the move counter and adds NaN to the cut distance.
\<close>

theorem zero_length_counterexample:
  "res_segments (parse ''G1 X.\<newline>G1'') =
     [\<lparr>seg_type = cut,
       seg_from = \<lparr>px = Fin 0, py = Fin 0, pz = Fin 0\<rparr>,
       seg_to = \<lparr>px = NaN, py = Fin 0, pz = Fin 0\<rparr>,
       seg_tool = None, seg_line = 1\<rparr>,
      \<lparr>seg_type = cut,
       seg_from = \<lparr>px = NaN, py = Fin 0, pz = Fin 0\<rparr>,
       seg_to = \<lparr>px = NaN, py = Fin 0, pz = Fin 0\<rparr>,
       seg_tool = None, seg_line = 2\<rparr>]
   \<and> res_moveCount (parse ''G1 X.\<newline>G1'') = 2
   \<and> position (parseMoves ''G1 X.'') = \<lparr>px = NaN, py = Fin 0, pz = Fin 0\<rparr>
   \<and> linearTarget Map.empty (parseMoves ''G1 X.'') = position (parseMoves ''G1 X.'')
   \<and> segments (processLinearMove cut Map.empty 2 (parseMoves ''G1 X.'')) =
       segments (parseMoves ''G1 X.'') @
         [\<lparr>seg_type = cut,
           seg_from = \<lparr>px = NaN, py = Fin 0, pz = Fin 0\<rparr>,
           seg_to = \<lparr>px = NaN, py = Fin 0, pz = Fin 0\<rparr>,
           seg_tool = None, seg_line = 2\<rparr>]
   \<and> moveCount (processLinearMove cut Map.empty 2 (parseMoves ''G1 X.'')) =
       Suc (moveCount (parseMoves ''G1 X.''))
   \<and> totalCutDist (processLinearMove cut Map.empty 2 (parseMoves ''G1 X.'')) = NaN"
proof -
  have a: "parseMoves ''G1 X.'' = 
     \<lparr>this_x = NaN, this_y = Fin 0, this_z = Fin 0, feedRate = Fin 0,
      absoluteMode = True,
      segments =
        [\<lparr>seg_type = cut,
          seg_from = \<lparr>px = Fin 0, py = Fin 0, pz = Fin 0\<rparr>,
          seg_to = \<lparr>px = NaN, py = Fin 0, pz = Fin 0\<rparr>,
          seg_tool = None, seg_line = 1\<rparr>],
      bounds =
        \<lparr>bmin = \<lparr>px = NaN, py = Fin 0, pz = Fin 0\<rparr>,
         bmax = \<lparr>px = NaN, py = Fin 0, pz = Fin 0\<rparr>\<rparr>,
      lineCount = 1, moveCount = 1,
      programEnded = False, lastMoveType = Some cut,
      currentTool = None, currentSpindleSpeed = Fin 0,
      totalCutDist = NaN, totalRapidDist = Fin 0,
      feedSegments = [\<lparr>fs_dist = NaN, fs_feed = Fin 100\<rparr>],
      rapidRate = Fin 400, toolChangeTime = Fin 8, toolChangeCount = 0\<rparr>"
    by (simp add: parseMoves_def text_defs num_defs line_defs Let_def)
  have b: "segments (parseMoves ''G1 X.\<newline>G1'') =
     [\<lparr>seg_type = cut,
       seg_from = \<lparr>px = Fin 0, py = Fin 0, pz = Fin 0\<rparr>,
       seg_to = \<lparr>px = NaN, py = Fin 0, pz = Fin 0\<rparr>,
       seg_tool = None, seg_line = 1\<rparr>,
      \<lparr>seg_type = cut,
       seg_from = \<lparr>px = NaN, py = Fin 0, pz = Fin 0\<rparr>,
       seg_to = \<lparr>px = NaN, py = Fin 0, pz = Fin 0\<rparr>,
       seg_tool = None, seg_line = 2\<rparr>]"
    by (simp add: parseMoves_def text_defs num_defs line_defs Let_def)
  have c: "res_segments (parse ''G1 X.\<newline>G1'') = segments (parseMoves ''G1 X.\<newline>G1'')"
    "res_moveCount (parse ''G1 X.\<newline>G1'') = 2"
    unfolding parse_def Let_def
    by (simp_all add: b trim_defs)
  have d: "position (parseMoves ''G1 X.'') = \<lparr>px = NaN, py = Fin 0, pz = Fin 0\<rparr>"
    "linearTarget Map.empty (parseMoves ''G1 X.'') = position (parseMoves ''G1 X.'')"
    by (simp_all add: a position_def linearTarget_def resolveAxis_def)
  have e: "processLinearMove cut Map.empty 2 (parseMoves ''G1 X.'') =
     (parseMoves ''G1 X.'')
       \<lparr>segments := segments (parseMoves ''G1 X.'') @
         [\<lparr>seg_type = cut,
           seg_from = \<lparr>px = NaN, py = Fin 0, pz = Fin 0\<rparr>,
           seg_to = \<lparr>px = NaN, py = Fin 0, pz = Fin 0\<rparr>,
           seg_tool = None, seg_line = 2\<rparr>],
        moveCount := 2, totalCutDist := NaN,
        feedSegments := [\<lparr>fs_dist = NaN, fs_feed = Fin 100\<rparr>, \<lparr>fs_dist = NaN, fs_feed = Fin 100\<rparr>]\<rparr>"
    unfolding a
    by (simp add: processLinearMove_def linearTarget_def resolveAxis_def position_def distance_def
        num_defs updateBounds_def extendBounds_def feedOrDefault_def Let_def)
  have f: "moveCount (parseMoves ''G1 X.'') = 1" by (simp add: a)
  show ?thesis
    unfolding c b d e by (simp add: f)
qed

section \<open>The segments of an arc\<close>

lemma arcStep_parts:
  "fst (arcStep a l k v) = arcVertex a k"
  "segments (snd (snd (arcStep a l k v))) =
     segments (snd (snd v)) @ [arcSegment a l (currentTool (snd (snd v))) (fst v) k]"
  by (simp_all add: arcStep_def arcSegment_def Let_def split: prod.splits)

lemma arcLoop_segments:
  "segments (snd (snd (arcLoop a l k v))) =
     segments (snd (snd v)) @
       map (\<lambda>i. arcSegment a l (currentTool (snd (snd v)))
                  (if i = k then fst v else arcVertex a (i - 1)) i)
         [k..<Suc arcSegments]"
proof (induction a l k v rule: arcLoop.induct)
  case (1 a l k v)
  show ?case
  proof (cases "k \<le> arcSegments")
    case True
    have u: "[k..<Suc arcSegments] = k # [Suc k..<Suc arcSegments]"
      using True by (simp del: upt_Suc add: upt_conv_Cons)
    have m: "map (\<lambda>i. arcSegment a l (currentTool (snd (snd v)))
                  (if i = Suc k then arcVertex a k else arcVertex a (i - 1)) i)
               [Suc k..<Suc arcSegments]
           = map (\<lambda>i. arcSegment a l (currentTool (snd (snd v)))
                  (if i = k then fst v else arcVertex a (i - 1)) i)
               [Suc k..<Suc arcSegments]"
      by (rule map_cong) auto
    have "segments (snd (snd (arcLoop a l k v))) =
          segments (snd (snd (arcLoop a l (k + 1) (arcStep a l k v))))"
      using True by (subst arcLoop.simps) simp
    also have "\<dots> = segments (snd (snd (arcStep a l k v))) @
       map (\<lambda>i. arcSegment a l (currentTool (snd (snd (arcStep a l k v))))
                  (if i = k + 1 then fst (arcStep a l k v) else arcVertex a (i - 1)) i)
         [k + 1..<Suc arcSegments]"
      using 1 True by (simp del: upt_Suc)
    finally show ?thesis
      by (simp del: upt_Suc add: arcStep_parts arcStep_fixed u m)
  next
    case False
    then show ?thesis by (subst arcLoop.simps) simp
  qed
qed

lemma processArc_segments:
  "segments (processArc t ps l s) =
     segments s @ arcPolyline (arcGeometry t ps s) l (currentTool s) (position s)"
  by (simp del: upt_Suc add: processArc_def case_prod_beta arcLoop_segments arcPolyline_def)

lemma processArc_position:
  "position (processArc t ps l s) = arcEndPoint ps s"
  by (simp add: processArc_def case_prod_beta position_def)

lemma processArc_coords:
  "this_x (processArc t ps l s) = px (arcEndPoint ps s)"
  "this_y (processArc t ps l s) = py (arcEndPoint ps s)"
  "this_z (processArc t ps l s) = pz (arcEndPoint ps s)"
  by (simp_all add: processArc_def case_prod_beta)

lemma arcPolyline_length: "length (arcPolyline a l tool start) = 32"
  by (simp del: upt_Suc add: arcPolyline_def arcSegments_def)

lemma arcPolyline_fields:
  "map seg_type (arcPolyline a l tool start) = replicate 32 cut"
  "map seg_line (arcPolyline a l tool start) = replicate 32 l"
  "map seg_tool (arcPolyline a l tool start) = replicate 32 tool"
  by (simp_all del: upt_Suc add: arcPolyline_def arcSegment_def arcSegments_def comp_def
      map_replicate_const)

lemma arcPolyline_first:
  "seg_from (hd (arcPolyline a l tool start)) = start"
  by (simp del: upt_Suc add: arcPolyline_def arcSegment_def arcSegments_def upt_conv_Cons)

lemma arcPolyline_chain:
  "map seg_from (tl (arcPolyline a l tool start)) =
   map seg_to (butlast (arcPolyline a l tool start))"
proof -
  have t: "tl (arcPolyline a l tool start) =
     map (\<lambda>i. arcSegment a l tool (arcVertex a (i - 1)) i) [Suc 1..<Suc arcSegments]"
    by (simp del: upt_Suc add: arcPolyline_def upt_conv_Cons arcSegments_def map_tl [symmetric])
  have b: "butlast (arcPolyline a l tool start) =
     map (\<lambda>i. arcSegment a l tool (if i = 1 then start else arcVertex a (i - 1)) i)
       [1..<arcSegments]"
    by (simp add: arcPolyline_def map_butlast [symmetric])
  have "map seg_from (tl (arcPolyline a l tool start)) =
        map (\<lambda>i. arcVertex a (i - 1)) [Suc 1..<Suc arcSegments]"
    by (simp del: upt_Suc add: t arcSegment_def comp_def)
  also have "\<dots> = map (\<lambda>i. arcVertex a (i - 1)) (map Suc [1..<arcSegments])"
    by (simp only: map_Suc_upt)
  also have "\<dots> = map (\<lambda>i. arcVertex a i) [1..<arcSegments]"
    by (simp add: comp_def)
  also have "\<dots> = map seg_to (butlast (arcPolyline a l tool start))"
    by (simp add: b arcSegment_def comp_def)
  finally show ?thesis .
qed

lemma processArc_end:
  "this_x (processArc t ps l s) =
     (if absoluteMode s
      then (case ps CHR ''X'' of None \<Rightarrow> this_x s | Some v \<Rightarrow> v)
      else js_add (this_x s) (case ps CHR ''X'' of None \<Rightarrow> Fin 0 | Some v \<Rightarrow> v))"
  "this_y (processArc t ps l s) =
     (if absoluteMode s
      then (case ps CHR ''Y'' of None \<Rightarrow> this_y s | Some v \<Rightarrow> v)
      else js_add (this_y s) (case ps CHR ''Y'' of None \<Rightarrow> Fin 0 | Some v \<Rightarrow> v))"
  "this_z (processArc t ps l s) =
     (if absoluteMode s
      then (case ps CHR ''Z'' of None \<Rightarrow> this_z s | Some v \<Rightarrow> v)
      else js_add (this_z s) (case ps CHR ''Z'' of None \<Rightarrow> Fin 0 | Some v \<Rightarrow> v))"
  by (simp_all add: processArc_coords arcEndPoint_def arcEnd_def orElse_def)

text \<open>
  C2. For every arc command, \<open>processArc\<close> appends exactly 32 segments, all of kind
  cut, all with the arc's line number and the current tool; the first starts at the
  position before the arc and each later one starts at the end point of the one
  before it. Afterwards each of x, y and z is the commanded end coordinate: in
  absolute mode the value of the arc's X (Y, Z) word, or the coordinate before the
  arc when the word is absent; in relative mode the coordinate before the arc plus
  the value of the word, or plus 0 when the word is absent. No polyline vertex
  enters these.
\<close>

theorem arc_linearized:
  "(\<exists>new. segments (processArc type params lineNumber s) = segments s @ new
     \<and> length new = 32
     \<and> map seg_type new = replicate 32 cut
     \<and> map seg_line new = replicate 32 lineNumber
     \<and> map seg_tool new = replicate 32 (currentTool s)
     \<and> seg_from (hd new) = position s
     \<and> map seg_from (tl new) = map seg_to (butlast new))
   \<and> this_x (processArc type params lineNumber s) =
       (if absoluteMode s
        then (case params CHR ''X'' of None \<Rightarrow> this_x s | Some v \<Rightarrow> v)
        else js_add (this_x s) (case params CHR ''X'' of None \<Rightarrow> Fin 0 | Some v \<Rightarrow> v))
   \<and> this_y (processArc type params lineNumber s) =
       (if absoluteMode s
        then (case params CHR ''Y'' of None \<Rightarrow> this_y s | Some v \<Rightarrow> v)
        else js_add (this_y s) (case params CHR ''Y'' of None \<Rightarrow> Fin 0 | Some v \<Rightarrow> v))
   \<and> this_z (processArc type params lineNumber s) =
       (if absoluteMode s
        then (case params CHR ''Z'' of None \<Rightarrow> this_z s | Some v \<Rightarrow> v)
        else js_add (this_z s) (case params CHR ''Z'' of None \<Rightarrow> Fin 0 | Some v \<Rightarrow> v))"
proof (intro conjI)
  show "\<exists>new. segments (processArc type params lineNumber s) = segments s @ new
     \<and> length new = 32
     \<and> map seg_type new = replicate 32 cut
     \<and> map seg_line new = replicate 32 lineNumber
     \<and> map seg_tool new = replicate 32 (currentTool s)
     \<and> seg_from (hd new) = position s
     \<and> map seg_from (tl new) = map seg_to (butlast new)"
  proof (intro exI conjI)
    show "segments (processArc type params lineNumber s) =
      segments s @ arcPolyline (arcGeometry type params s) lineNumber (currentTool s) (position s)"
      by (rule processArc_segments)
  qed (simp_all only: arcPolyline_length arcPolyline_fields arcPolyline_first arcPolyline_chain)
qed (rule processArc_end)+

lemma arcPolyline_last:
  "seg_to (last (arcPolyline a l tool start)) = arcVertex a arcSegments"
proof -
  have "1 \<le> arcSegments" by (simp add: arcSegments_def)
  then have "[1..<Suc arcSegments] = [1..<arcSegments] @ [arcSegments]"
    by simp
  then show ?thesis
    by (simp del: upt_Suc add: arcPolyline_def arcSegment_def)
qed

lemma processLinearMove_segments:
  "segments (processLinearMove type params l s) =
     (if js_seq (this_x s) (px (linearTarget params s))
         \<and> js_seq (this_y s) (py (linearTarget params s))
         \<and> js_seq (this_z s) (pz (linearTarget params s))
      then segments s
      else segments s @
        [\<lparr>seg_type = type, seg_from = position s, seg_to = linearTarget params s,
          seg_tool = currentTool s, seg_line = l\<rparr>])"
  by (simp add: processLinearMove_def Let_def position_def linearTarget_def)

lemma processLinearMove_position:
  "position (processLinearMove type params l s) = linearTarget params s"
  by (simp add: processLinearMove_def Let_def position_def)

section \<open>End points of segments\<close>

text \<open>
  C9 (as amended). A linear move appends no segment or one segment; that segment
  starts at the position before the move and ends at the position after it. An arc
  appends segments of which the first starts at the position before the arc, each
  later one starts where the one before it ends, and the last ends at the vertex
  of step 32; the position after the arc is the commanded end point.
\<close>

theorem segment_endpoints:
  "(segments (processLinearMove type params l s) = segments s
     \<or> segments (processLinearMove type params l s) =
         segments s @
           [\<lparr>seg_type = type, seg_from = position s,
             seg_to = position (processLinearMove type params l s),
             seg_tool = currentTool s, seg_line = l\<rparr>])
   \<and> (\<exists>new. segments (processArc type params l s) = segments s @ new
        \<and> seg_from (hd new) = position s
        \<and> map seg_from (tl new) = map seg_to (butlast new)
        \<and> seg_to (last new) = arcVertex (arcGeometry type params s) arcSegments
        \<and> position (processArc type params l s) = arcEndPoint params s)"
proof (intro conjI)
  show "segments (processLinearMove type params l s) = segments s
     \<or> segments (processLinearMove type params l s) =
         segments s @
           [\<lparr>seg_type = type, seg_from = position s,
             seg_to = position (processLinearMove type params l s),
             seg_tool = currentTool s, seg_line = l\<rparr>]"
    by (simp add: processLinearMove_segments processLinearMove_position)
  show "\<exists>new. segments (processArc type params l s) = segments s @ new
        \<and> seg_from (hd new) = position s
        \<and> map seg_from (tl new) = map seg_to (butlast new)
        \<and> seg_to (last new) = arcVertex (arcGeometry type params s) arcSegments
        \<and> position (processArc type params l s) = arcEndPoint params s"
  proof (intro exI conjI)
    show "segments (processArc type params l s) =
        segments s @ arcPolyline (arcGeometry type params s) l (currentTool s) (position s)"
      by (rule processArc_segments)
  qed (simp_all only: arcPolyline_first arcPolyline_chain arcPolyline_last processArc_position)
qed

text \<open>
  As stated the claim fails for arcs: the position after an arc is the commanded
  end point, not the end of the last segment. The line \<open>G2 X10\<close> at the origin has
  no centre offsets, so every vertex is the origin, and the position afterwards is
  (10, 0, 0).
\<close>

lemma moves_G2_X10:
  "segments (parseMoves ''G2 X10'') =
     arcPolyline (arcGeometry cw_arc [CHR ''X'' \<mapsto> Fin 10] reset) 1 None
       \<lparr>px = Fin 0, py = Fin 0, pz = Fin 0\<rparr>"
  "position (parseMoves ''G2 X10'') = \<lparr>px = Fin 10, py = Fin 0, pz = Fin 0\<rparr>"
  by (simp_all add: parseMoves_def text_defs parseFloat_def digitsVal_def digitVal_def
      js_seq_def parseLine_def wordStep_def isSkipCode_def moveTypeStep_def moveTypeOf_def
      hasWord_def dispatch_def Let_def processArc_segments processArc_coords
      arcEndPoint_def arcEnd_def orElse_def reset_def position_def arcGeometry_def)

theorem arc_end_counterexample:
  "seg_to (last (segments (parseMoves ''G2 X10''))) = \<lparr>px = Fin 0, py = Fin 0, pz = Fin 0\<rparr>
   \<and> position (parseMoves ''G2 X10'') = \<lparr>px = Fin 10, py = Fin 0, pz = Fin 0\<rparr>"
  unfolding moves_G2_X10 arcPolyline_last
  by (simp add: arcVertex_def arcGeometry_def stepAngle_def arcSegments_def position_def reset_def
      arcEndPoint_def arcEnd_def orElse_def correctedEndAngle_def js_PI_def num_defs Let_def)

section \<open>Trimming in closed form\<close>

lemma trimLoop_dropWhile:
  "trimLoop cb segs = rev (dropWhile (isParkMove cb) (rev segs))"
proof (induction cb segs rule: trimLoop.induct)
  case (1 cb segs)
  show ?case
  proof (cases "segs = []")
    case True
    then show ?thesis by (subst trimLoop.simps) simp
  next
    case False
    then have r: "rev segs = last segs # rev (butlast segs)"
      by (metis append_butlast_last_id rev.simps(2) rev_append rev_rev_ident rev_singleton_conv append_Cons append_Nil)
    show ?thesis
    proof (cases "isParkMove cb (last segs)")
      case True
      with False 1 show ?thesis
        by (subst trimLoop.simps) (simp add: r)
    next
      case park: False
      have "rev (dropWhile (isParkMove cb) (rev segs)) = rev (rev segs)"
        using park by (simp add: r)
      with False park show ?thesis
        by (subst trimLoop.simps) simp
    qed
  qed
qed

lemma trimLoop_split:
  "segs = trimLoop cb segs @ rev (takeWhile (isParkMove cb) (rev segs))"
proof -
  have "rev segs = takeWhile (isParkMove cb) (rev segs) @ dropWhile (isParkMove cb) (rev segs)"
    by simp
  then have "rev (rev segs) =
      rev (dropWhile (isParkMove cb) (rev segs)) @ rev (takeWhile (isParkMove cb) (rev segs))"
    by (metis rev_append)
  then show ?thesis by (simp add: trimLoop_dropWhile)
qed

lemma trimLoop_stops:
  "trimLoop cb segs = [] \<or> \<not> isParkMove cb (last (trimLoop cb segs))"
proof (cases "dropWhile (isParkMove cb) (rev segs)")
  case Nil
  then show ?thesis by (simp add: trimLoop_dropWhile)
next
  case (Cons a as)
  then have "\<not> isParkMove cb a"
    by (metis hd_dropWhile list.sel(1) list.distinct(1))
  then show ?thesis by (simp add: trimLoop_dropWhile Cons)
qed

lemma trimLoop_fixed:
  "segs = [] \<or> \<not> isParkMove cb (last segs) \<Longrightarrow> trimLoop cb segs = segs"
  by (subst trimLoop.simps) auto

lemma cutBounds_rapids:
  "list_all (\<lambda>seg. seg_type seg = rapid) rs \<Longrightarrow> fold cutBoundsStep rs cb = cb"
  by (induction rs) (simp_all add: cutBoundsStep_def)

lemma cutBounds_trimLoop: "cutBounds (trimLoop cb segs) = cutBounds segs"
proof -
  let ?rs = "rev (takeWhile (isParkMove cb) (rev segs))"
  have "list_all (\<lambda>seg. seg_type seg = rapid) ?rs"
    by (auto simp: list_all_iff isParkMove_def dest: set_takeWhileD)
  then have "fold cutBoundsStep ?rs (cutBounds (trimLoop cb segs)) = cutBounds (trimLoop cb segs)"
    by (rule cutBounds_rapids)
  moreover have "cutBounds segs = fold cutBoundsStep ?rs (cutBounds (trimLoop cb segs))"
    by (subst trimLoop_split [of segs cb]) (simp add: cutBounds_def)
  ultimately show ?thesis by simp
qed

lemma fold_boundsOfSegment:
  "fold boundsOfSegment segs s = s\<lparr>bounds := fold segmentBounds segs (bounds s)\<rparr>"
  by (induction segs arbitrary: s)
     (simp_all add: boundsOfSegment_def updateBounds_def segmentBounds_def)

lemma trimParkMoves_closed:
  "trimParkMoves s =
     s\<lparr>segments := trimLoop (cutBounds (segments s)) (segments s),
       bounds := fold segmentBounds (trimLoop (cutBounds (segments s)) (segments s)) emptyBounds\<rparr>"
  by (simp add: trimParkMoves_def Let_def fold_boundsOfSegment)

lemma trimParkMoves_idem: "trimParkMoves (trimParkMoves s) = trimParkMoves s"
proof -
  let ?cb = "cutBounds (segments s)"
  have "trimLoop ?cb (trimLoop ?cb (segments s)) = trimLoop ?cb (segments s)"
    using trimLoop_stops by (rule trimLoop_fixed)
  then show ?thesis
    by (simp add: trimParkMoves_closed cutBounds_trimLoop)
qed

text \<open>
  C5. For every segment list, park-move trimming removes a suffix of the list; every
  removed segment is a rapid whose end point is outside the rectangle of the cuts
  widened by the margin (so no cut and no rapid inside the envelope is removed);
  the loop stops at the first segment from the tail that is not such a rapid; the
  rectangle of the cuts is the same before and after; and trimming a second time
  changes nothing, neither the list nor the recomputed bounds.
\<close>

theorem trim_only_park_moves:
  "\<exists>removed. segments s = segments (trimParkMoves s) @ removed
     \<and> (\<forall>seg \<in> set removed.
          seg_type seg = rapid \<and> outsideEnvelope (cutBounds (segments s)) (seg_to seg))
     \<and> (segments (trimParkMoves s) = []
          \<or> \<not> isParkMove (cutBounds (segments s)) (last (segments (trimParkMoves s))))
     \<and> cutBounds (segments (trimParkMoves s)) = cutBounds (segments s)
     \<and> trimParkMoves (trimParkMoves s) = trimParkMoves s"
proof (intro exI conjI)
  show "segments s = segments (trimParkMoves s) @
      rev (takeWhile (isParkMove (cutBounds (segments s))) (rev (segments s)))"
    using trimLoop_split by (simp add: trimParkMoves_closed)
  show "\<forall>seg \<in> set (rev (takeWhile (isParkMove (cutBounds (segments s))) (rev (segments s)))).
          seg_type seg = rapid \<and> outsideEnvelope (cutBounds (segments s)) (seg_to seg)"
    by (auto simp: isParkMove_def dest: set_takeWhileD)
  show "segments (trimParkMoves s) = []
          \<or> \<not> isParkMove (cutBounds (segments s)) (last (segments (trimParkMoves s)))"
    using trimLoop_stops by (simp add: trimParkMoves_closed)
  show "cutBounds (segments (trimParkMoves s)) = cutBounds (segments s)"
    by (simp add: trimParkMoves_closed cutBounds_trimLoop)
  show "trimParkMoves (trimParkMoves s) = trimParkMoves s"
    by (rule trimParkMoves_idem)
qed


lemma moves_park_example:
  "segments (parseMoves ''G1 X10 Y10\<newline>G0 X12 Y12\<newline>G0 X100 Y100'') =
     [\<lparr>seg_type = cut,
       seg_from = \<lparr>px = Fin 0, py = Fin 0, pz = Fin 0\<rparr>,
       seg_to = \<lparr>px = Fin 10, py = Fin 10, pz = Fin 0\<rparr>,
       seg_tool = None, seg_line = 1\<rparr>,
      \<lparr>seg_type = rapid,
       seg_from = \<lparr>px = Fin 10, py = Fin 10, pz = Fin 0\<rparr>,
       seg_to = \<lparr>px = Fin 12, py = Fin 12, pz = Fin 0\<rparr>,
       seg_tool = None, seg_line = 2\<rparr>,
      \<lparr>seg_type = rapid,
       seg_from = \<lparr>px = Fin 12, py = Fin 12, pz = Fin 0\<rparr>,
       seg_to = \<lparr>px = Fin 100, py = Fin 100, pz = Fin 0\<rparr>,
       seg_tool = None, seg_line = 3\<rparr>]"
  by (simp add: parseMoves_def text_defs num_defs line_defs Let_def)

theorem trim_only_park_moves_witness:
  "segments (trimParkMoves (parseMoves ''G1 X10 Y10\<newline>G0 X12 Y12\<newline>G0 X100 Y100'')) =
     [\<lparr>seg_type = cut,
       seg_from = \<lparr>px = Fin 0, py = Fin 0, pz = Fin 0\<rparr>,
       seg_to = \<lparr>px = Fin 10, py = Fin 10, pz = Fin 0\<rparr>,
       seg_tool = None, seg_line = 1\<rparr>,
      \<lparr>seg_type = rapid,
       seg_from = \<lparr>px = Fin 10, py = Fin 10, pz = Fin 0\<rparr>,
       seg_to = \<lparr>px = Fin 12, py = Fin 12, pz = Fin 0\<rparr>,
       seg_tool = None, seg_line = 2\<rparr>]
   \<and> outsideEnvelope
        (cutBounds (segments (parseMoves ''G1 X10 Y10\<newline>G0 X12 Y12\<newline>G0 X100 Y100'')))
        \<lparr>px = Fin 100, py = Fin 100, pz = Fin 0\<rparr>"
proof -
  let ?s = "parseMoves ''G1 X10 Y10\<newline>G0 X12 Y12\<newline>G0 X100 Y100''"
  let ?far = "\<lparr>seg_type = rapid,
       seg_from = \<lparr>px = Fin 12, py = Fin 12, pz = Fin 0\<rparr>,
       seg_to = \<lparr>px = Fin 100, py = Fin 100, pz = Fin 0\<rparr>,
       seg_tool = None, seg_line = 3\<rparr>"
  have t: "segments (trimParkMoves ?s) =
     [\<lparr>seg_type = cut,
       seg_from = \<lparr>px = Fin 0, py = Fin 0, pz = Fin 0\<rparr>,
       seg_to = \<lparr>px = Fin 10, py = Fin 10, pz = Fin 0\<rparr>,
       seg_tool = None, seg_line = 1\<rparr>,
      \<lparr>seg_type = rapid,
       seg_from = \<lparr>px = Fin 10, py = Fin 10, pz = Fin 0\<rparr>,
       seg_to = \<lparr>px = Fin 12, py = Fin 12, pz = Fin 0\<rparr>,
       seg_tool = None, seg_line = 2\<rparr>]"
    by (simp add: trimParkMoves_closed moves_park_example cutBounds_def cutBoundsStep_def
        emptyCutBounds_def margin_def isParkMove_def outsideEnvelope_def trimLoop.simps num_defs)
  from trim_only_park_moves [of ?s] obtain removed where
    a: "segments ?s = segments (trimParkMoves ?s) @ removed" and
    b: "\<forall>seg \<in> set removed.
          seg_type seg = rapid \<and> outsideEnvelope (cutBounds (segments ?s)) (seg_to seg)"
    by blast
  from a [unfolded t moves_park_example] have "removed = [?far]"
    by simp
  with b have "outsideEnvelope (cutBounds (segments ?s)) (seg_to ?far)" by simp
  with t show ?thesis by simp
qed

section \<open>Programs of rapids only\<close>

lemma margin_empty: "margin emptyCutBounds = Fin 5"
  by (simp add: margin_def emptyCutBounds_def num_defs)

lemma outside_empty:
  "outsideEnvelope emptyCutBounds q \<longleftrightarrow> px q \<noteq> NaN \<or> py q \<noteq> NaN"
proof -
  have x: "js_lt NInf a \<or> js_lt a PInf \<longleftrightarrow> a \<noteq> NaN" for a
    by (cases a) simp_all
  show ?thesis
    unfolding outsideEnvelope_def margin_empty
    using x [of "px q"] x [of "py q"]
    by (simp add: emptyCutBounds_def js_gt_def js_sub_def) blast
qed

lemma cutBounds_all_rapid:
  "list_all (\<lambda>seg. seg_type seg = rapid) segs \<Longrightarrow> cutBounds segs = emptyCutBounds"
  by (simp add: cutBounds_def cutBounds_rapids)

lemma trimLoop_all_rapid:
  assumes "\<forall>seg \<in> set segs. seg_type seg = rapid
             \<and> (px (seg_to seg) \<noteq> NaN \<or> py (seg_to seg) \<noteq> NaN)"
  shows "trimLoop emptyCutBounds segs = []"
proof -
  have "\<forall>seg \<in> set (rev segs). isParkMove emptyCutBounds seg"
    using assms by (simp add: isParkMove_def outside_empty)
  then have "dropWhile (isParkMove emptyCutBounds) (rev segs) = []"
    by (simp only: dropWhile_eq_Nil_conv)
  then show ?thesis by (simp add: trimLoop_dropWhile)
qed

lemma is_fin_not_NaN: "is_fin a \<Longrightarrow> a \<noteq> NaN"
  by (cases a) simp_all

text \<open>
  C10. For every parse whose segments before trimming are all rapids with finite x
  and y at their end points, the rectangle of the cuts is the empty one (minima
  \<open>+\<infinity>\<close>, maxima \<open>-\<infinity>\<close>), every end point passes the margin test, and the result has no
  segment and the move count 0.
\<close>

theorem rapid_only_program_empty:
  assumes "\<forall>seg \<in> set (segments (parseMoves t)).
             seg_type seg = rapid \<and> is_fin (px (seg_to seg)) \<and> is_fin (py (seg_to seg))"
  shows "cutBounds (segments (parseMoves t)) = emptyCutBounds
    \<and> (\<forall>seg \<in> set (segments (parseMoves t)).
          outsideEnvelope (cutBounds (segments (parseMoves t))) (seg_to seg))
    \<and> res_segments (parse t) = []
    \<and> res_moveCount (parse t) = 0"
proof -
  have r: "list_all (\<lambda>seg. seg_type seg = rapid) (segments (parseMoves t))"
    using assms by (simp add: list_all_iff)
  then have c: "cutBounds (segments (parseMoves t)) = emptyCutBounds"
    by (rule cutBounds_all_rapid)
  have n: "\<forall>seg \<in> set (segments (parseMoves t)). seg_type seg = rapid
             \<and> (px (seg_to seg) \<noteq> NaN \<or> py (seg_to seg) \<noteq> NaN)"
    using assms is_fin_not_NaN by blast
  then have "trimLoop emptyCutBounds (segments (parseMoves t)) = []"
    by (rule trimLoop_all_rapid)
  moreover have "\<forall>seg \<in> set (segments (parseMoves t)).
          outsideEnvelope emptyCutBounds (seg_to seg)"
    using n by (simp add: outside_empty)
  ultimately show ?thesis
    by (simp add: c parse_def Let_def trimParkMoves_closed)
qed

lemma moves_rapids_example:
  "segments (parseMoves ''G0 X10\<newline>G0 Y5'') =
     [\<lparr>seg_type = rapid,
       seg_from = \<lparr>px = Fin 0, py = Fin 0, pz = Fin 0\<rparr>,
       seg_to = \<lparr>px = Fin 10, py = Fin 0, pz = Fin 0\<rparr>,
       seg_tool = None, seg_line = 1\<rparr>,
      \<lparr>seg_type = rapid,
       seg_from = \<lparr>px = Fin 10, py = Fin 0, pz = Fin 0\<rparr>,
       seg_to = \<lparr>px = Fin 10, py = Fin 5, pz = Fin 0\<rparr>,
       seg_tool = None, seg_line = 2\<rparr>]"
  by (simp add: parseMoves_def text_defs num_defs line_defs Let_def)

theorem rapid_only_program_empty_witness:
  "length (segments (parseMoves ''G0 X10\<newline>G0 Y5'')) = 2
   \<and> res_segments (parse ''G0 X10\<newline>G0 Y5'') = []
   \<and> res_moveCount (parse ''G0 X10\<newline>G0 Y5'') = 0"
proof -
  have "\<forall>seg \<in> set (segments (parseMoves ''G0 X10\<newline>G0 Y5'')).
          seg_type seg = rapid \<and> is_fin (px (seg_to seg)) \<and> is_fin (py (seg_to seg))"
    by (simp add: moves_rapids_example)
  from rapid_only_program_empty [OF this] show ?thesis
    by (simp add: moves_rapids_example)
qed

section \<open>Bounds\<close>

lemma fold_segmentBounds_min:
  "px (bmin (fold segmentBounds segs b)) = foldl js_min (px (bmin b)) (coords px segs)"
  "py (bmin (fold segmentBounds segs b)) = foldl js_min (py (bmin b)) (coords py segs)"
  "pz (bmin (fold segmentBounds segs b)) = foldl js_min (pz (bmin b)) (coords pz segs)"
  by (induction segs arbitrary: b; simp add: coords_def segmentBounds_def extendBounds_def)+

lemma fold_segmentBounds_max:
  "px (bmax (fold segmentBounds segs b)) = foldl js_max (px (bmax b)) (coords px segs)"
  "py (bmax (fold segmentBounds segs b)) = foldl js_max (py (bmax b)) (coords py segs)"
  "pz (bmax (fold segmentBounds segs b)) = foldl js_max (pz (bmax b)) (coords pz segs)"
  by (induction segs arbitrary: b; simp add: coords_def segmentBounds_def extendBounds_def)+

lemma js_min_NaN [simp]: "js_min NaN c = NaN" "js_min m NaN = NaN"
  by (simp_all add: js_min_def)

lemma foldl_min_NaN: "foldl js_min NaN cs = NaN"
  by (induction cs) simp_all

lemma foldl_min_has_NaN: "NaN \<in> set cs \<Longrightarrow> foldl js_min m cs = NaN"
  by (induction cs arbitrary: m) (auto simp: foldl_min_NaN)

lemma js_le_first: "NaN \<noteq> c \<Longrightarrow> js_le (js_min PInf c) (js_max NInf c)"
  by (cases c) (simp_all add: js_le_def js_min_def js_max_def)

lemma js_le_step:
  "js_le m M \<Longrightarrow> NaN \<noteq> c \<Longrightarrow> js_le (js_min m c) (js_max M c)"
  by (cases m; cases M; cases c; simp add: js_le_def js_min_def js_max_def)

lemma foldl_minmax_le:
  "js_le m M \<Longrightarrow> NaN \<notin> set cs \<Longrightarrow> js_le (foldl js_min m cs) (foldl js_max M cs)"
  by (induction cs arbitrary: m M) (simp_all add: js_le_step)

lemma minmax_ordered_iff:
  assumes "cs \<noteq> []"
  shows "js_le (foldl js_min PInf cs) (foldl js_max NInf cs) \<longleftrightarrow> NaN \<notin> set cs"
proof
  assume "js_le (foldl js_min PInf cs) (foldl js_max NInf cs)"
  then have "foldl js_min PInf cs \<noteq> NaN" by (simp add: js_le_def)
  then show "NaN \<notin> set cs" using foldl_min_has_NaN by blast
next
  assume n: "NaN \<notin> set cs"
  from assms obtain c cs' where cs: "cs = c # cs'" by (cases cs) auto
  with n have "js_le (js_min PInf c) (js_max NInf c)" by (simp add: js_le_first)
  with n cs show "js_le (foldl js_min PInf cs) (foldl js_max NInf cs)"
    by (simp add: foldl_minmax_le)
qed

lemma coords_nonempty: "segs \<noteq> [] \<Longrightarrow> coords c segs \<noteq> []"
  by (cases segs) (simp_all add: coords_def)

lemma coords_NaN:
  "NaN \<notin> set (coords c segs) \<longleftrightarrow>
   (\<forall>seg \<in> set segs. c (seg_from seg) \<noteq> NaN \<and> c (seg_to seg) \<noteq> NaN)"
  by (induction segs) (auto simp: coords_def)

lemma parse_bounds:
  "res_bounds (parse t) = fold segmentBounds (res_segments (parse t)) emptyBounds"
  by (simp add: parse_def Let_def trimParkMoves_closed)

text \<open>
  C4 (as amended). For every input for which \<open>parse\<close> returns at least one segment,
  and for each axis on its own: the minimum of the returned bounds is at most the
  maximum exactly when no end point of a returned segment has NaN on that axis. In
  particular the bounds are ordered on every axis when no coordinate is NaN.
\<close>

theorem bounds_ordered:
  assumes "res_segments (parse t) \<noteq> []"
  shows "(js_le (px (bmin (res_bounds (parse t)))) (px (bmax (res_bounds (parse t)))) \<longleftrightarrow>
           (\<forall>seg \<in> set (res_segments (parse t)).
              px (seg_from seg) \<noteq> NaN \<and> px (seg_to seg) \<noteq> NaN))
       \<and> (js_le (py (bmin (res_bounds (parse t)))) (py (bmax (res_bounds (parse t)))) \<longleftrightarrow>
           (\<forall>seg \<in> set (res_segments (parse t)).
              py (seg_from seg) \<noteq> NaN \<and> py (seg_to seg) \<noteq> NaN))
       \<and> (js_le (pz (bmin (res_bounds (parse t)))) (pz (bmax (res_bounds (parse t)))) \<longleftrightarrow>
           (\<forall>seg \<in> set (res_segments (parse t)).
              pz (seg_from seg) \<noteq> NaN \<and> pz (seg_to seg) \<noteq> NaN))"
  using assms
  by (simp add: parse_bounds fold_segmentBounds_min fold_segmentBounds_max emptyBounds_def
      minmax_ordered_iff coords_nonempty coords_NaN)

theorem bounds_ordered_witness:
  "res_segments (parse ''G90\<newline>G0 X10 Y0\<newline>G1 X10 Y10 F100\<newline>'') \<noteq> []
   \<and> js_le (px (bmin (res_bounds (parse ''G90\<newline>G0 X10 Y0\<newline>G1 X10 Y10 F100\<newline>''))))
           (px (bmax (res_bounds (parse ''G90\<newline>G0 X10 Y0\<newline>G1 X10 Y10 F100\<newline>''))))
   \<and> js_le (py (bmin (res_bounds (parse ''G90\<newline>G0 X10 Y0\<newline>G1 X10 Y10 F100\<newline>''))))
           (py (bmax (res_bounds (parse ''G90\<newline>G0 X10 Y0\<newline>G1 X10 Y10 F100\<newline>''))))
   \<and> js_le (pz (bmin (res_bounds (parse ''G90\<newline>G0 X10 Y0\<newline>G1 X10 Y10 F100\<newline>''))))
           (pz (bmax (res_bounds (parse ''G90\<newline>G0 X10 Y0\<newline>G1 X10 Y10 F100\<newline>''))))"
proof -
  let ?t = "''G90\<newline>G0 X10 Y0\<newline>G1 X10 Y10 F100\<newline>''"
  have s: "res_segments (parse ?t) =
     [\<lparr>seg_type = rapid,
       seg_from = \<lparr>px = Fin 0, py = Fin 0, pz = Fin 0\<rparr>,
       seg_to = \<lparr>px = Fin 10, py = Fin 0, pz = Fin 0\<rparr>,
       seg_tool = None, seg_line = 2\<rparr>,
      \<lparr>seg_type = cut,
       seg_from = \<lparr>px = Fin 10, py = Fin 0, pz = Fin 0\<rparr>,
       seg_to = \<lparr>px = Fin 10, py = Fin 10, pz = Fin 0\<rparr>,
       seg_tool = None, seg_line = 3\<rparr>]"
    unfolding parse_def moves_scenario_A
    by (simp add: trim_defs num_defs Let_def)
  then have n: "res_segments (parse ?t) \<noteq> []" by simp
  from bounds_ordered [OF n] n show ?thesis
    unfolding s by simp
qed

text \<open>
  As stated, for every input, the claim fails: the word \<open>X.\<close> parses to NaN, the
  move to it is kept, and both x bounds become NaN, which no comparison orders.
\<close>

lemma moves_NaN_example:
  "segments (parseMoves ''G1 X.'') =
     [\<lparr>seg_type = cut,
       seg_from = \<lparr>px = Fin 0, py = Fin 0, pz = Fin 0\<rparr>,
       seg_to = \<lparr>px = NaN, py = Fin 0, pz = Fin 0\<rparr>,
       seg_tool = None, seg_line = 1\<rparr>]"
  by (simp add: parseMoves_def text_defs num_defs line_defs Let_def)

theorem bounds_ordered_counterexample:
  "res_segments (parse ''G1 X.'') =
     [\<lparr>seg_type = cut,
       seg_from = \<lparr>px = Fin 0, py = Fin 0, pz = Fin 0\<rparr>,
       seg_to = \<lparr>px = NaN, py = Fin 0, pz = Fin 0\<rparr>,
       seg_tool = None, seg_line = 1\<rparr>]
   \<and> px (bmin (res_bounds (parse ''G1 X.''))) = NaN
   \<and> px (bmax (res_bounds (parse ''G1 X.''))) = NaN
   \<and> \<not> js_le (px (bmin (res_bounds (parse ''G1 X.'')))) (px (bmax (res_bounds (parse ''G1 X.''))))"
proof -
  have s: "res_segments (parse ''G1 X.'') =
     [\<lparr>seg_type = cut,
       seg_from = \<lparr>px = Fin 0, py = Fin 0, pz = Fin 0\<rparr>,
       seg_to = \<lparr>px = NaN, py = Fin 0, pz = Fin 0\<rparr>,
       seg_tool = None, seg_line = 1\<rparr>]"
    by (simp add: parse_def Let_def moves_NaN_example trim_defs num_defs)
  show ?thesis
    unfolding parse_bounds s
    by (simp add: segmentBounds_def extendBounds_def emptyBounds_def num_defs)
qed

section \<open>Lines that are skipped\<close>

lemma wordStep_gCodes:
  "fst (wordStep w v) = fst v @ map wordValue (filter (isWord CHR ''G'') [w])"
  by (simp add: wordStep_def isWord_def wordValue_def Let_def split: prod.splits list.splits)

lemma fold_wordStep_gCodes:
  "fst (fold wordStep ws v) = fst v @ map wordValue (filter (isWord CHR ''G'') ws)"
  by (induction ws arbitrary: v) (simp_all add: wordStep_gCodes)

lemma wordStep_toolChangeCount:
  "toolChangeCount (snd (snd (wordStep w v))) =
     toolChangeCount (snd (snd v)) + length (filter (isWord CHR ''T'') [w])"
  by (simp add: wordStep_def isWord_def Let_def split: prod.splits list.splits)

lemma fold_wordStep_toolChangeCount:
  "toolChangeCount (snd (snd (fold wordStep ws v))) =
     toolChangeCount (snd (snd v)) + length (filter (isWord CHR ''T'') ws)"
  by (induction ws arbitrary: v) (simp_all add: wordStep_toolChangeCount)

lemma wordStep_motion [simp]:
  "segments (snd (snd (wordStep w v))) = segments (snd (snd v))"
  "this_x (snd (snd (wordStep w v))) = this_x (snd (snd v))"
  "this_y (snd (snd (wordStep w v))) = this_y (snd (snd v))"
  "this_z (snd (snd (wordStep w v))) = this_z (snd (snd v))"
  "feedRate (snd (snd (wordStep w v))) = feedRate (snd (snd v))"
  "absoluteMode (snd (snd (wordStep w v))) = absoluteMode (snd (snd v))"
  "programEnded (snd (snd (wordStep w v))) = programEnded (snd (snd v))"
  "lastMoveType (snd (snd (wordStep w v))) = lastMoveType (snd (snd v))"
  "bounds (snd (snd (wordStep w v))) = bounds (snd (snd v))"
  "moveCount (snd (snd (wordStep w v))) = moveCount (snd (snd v))"
  "lineCount (snd (snd (wordStep w v))) = lineCount (snd (snd v))"
  "totalCutDist (snd (snd (wordStep w v))) = totalCutDist (snd (snd v))"
  "totalRapidDist (snd (snd (wordStep w v))) = totalRapidDist (snd (snd v))"
  "feedSegments (snd (snd (wordStep w v))) = feedSegments (snd (snd v))"
  by (simp_all add: wordStep_def Let_def split: prod.splits list.splits)

lemma fold_wordStep_motion [simp]:
  "segments (snd (snd (fold wordStep ws v))) = segments (snd (snd v))"
  "this_x (snd (snd (fold wordStep ws v))) = this_x (snd (snd v))"
  "this_y (snd (snd (fold wordStep ws v))) = this_y (snd (snd v))"
  "this_z (snd (snd (fold wordStep ws v))) = this_z (snd (snd v))"
  "feedRate (snd (snd (fold wordStep ws v))) = feedRate (snd (snd v))"
  "absoluteMode (snd (snd (fold wordStep ws v))) = absoluteMode (snd (snd v))"
  "programEnded (snd (snd (fold wordStep ws v))) = programEnded (snd (snd v))"
  "lastMoveType (snd (snd (fold wordStep ws v))) = lastMoveType (snd (snd v))"
  "bounds (snd (snd (fold wordStep ws v))) = bounds (snd (snd v))"
  "moveCount (snd (snd (fold wordStep ws v))) = moveCount (snd (snd v))"
  "lineCount (snd (snd (fold wordStep ws v))) = lineCount (snd (snd v))"
  "totalCutDist (snd (snd (fold wordStep ws v))) = totalCutDist (snd (snd v))"
  "totalRapidDist (snd (snd (fold wordStep ws v))) = totalRapidDist (snd (snd v))"
  "feedSegments (snd (snd (fold wordStep ws v))) = feedSegments (snd (snd v))"
  by (induction ws arbitrary: v; simp)+

lemma applyGCodes_motion [simp]:
  "segments (snd (applyGCodes gs s)) = segments s"
  "this_x (snd (applyGCodes gs s)) = this_x s"
  "this_y (snd (applyGCodes gs s)) = this_y s"
  "this_z (snd (applyGCodes gs s)) = this_z s"
  "feedRate (snd (applyGCodes gs s)) = feedRate s"
  "programEnded (snd (applyGCodes gs s)) = programEnded s"
  "lastMoveType (snd (applyGCodes gs s)) = lastMoveType s"
  "bounds (snd (applyGCodes gs s)) = bounds s"
  "moveCount (snd (applyGCodes gs s)) = moveCount s"
  "lineCount (snd (applyGCodes gs s)) = lineCount s"
  "totalCutDist (snd (applyGCodes gs s)) = totalCutDist s"
  "totalRapidDist (snd (applyGCodes gs s)) = totalRapidDist s"
  "feedSegments (snd (applyGCodes gs s)) = feedSegments s"
  by (induction gs arbitrary: s; simp)+

lemma applyGCodes_skips: "list_ex isSkipCode gs \<Longrightarrow> fst (applyGCodes gs s)"
proof (induction gs arbitrary: s)
  case Nil
  then show ?case by simp
next
  case (Cons g gs)
  have "\<not> js_seq g (Fin 90) \<and> \<not> js_seq g (Fin 91)" if "isSkipCode g"
    using that by (auto simp: isSkipCode_def js_seq_def)
  with Cons show ?case by auto
qed

text \<open>The absolute mode after the G codes depends on the mode before and on the codes
  up to the first skipping one only.\<close>

lemma applyGCodes_absoluteMode_prefix:
  "absoluteMode (snd (applyGCodes gs s)) =
   absoluteMode (snd (applyGCodes (takeWhile (\<lambda>g. \<not> isSkipCode g) gs) s))"
proof (induction gs arbitrary: s)
  case Nil
  then show ?case by simp
next
  case (Cons g gs)
  have "\<not> js_seq g (Fin 90) \<and> \<not> js_seq g (Fin 91)" if "isSkipCode g"
    using that by (auto simp: isSkipCode_def js_seq_def)
  with Cons show ?case by auto
qed

lemma applyGCodes_absoluteMode_state:
  "absoluteMode s = absoluteMode s' \<Longrightarrow>
   absoluteMode (snd (applyGCodes gs s)) = absoluteMode (snd (applyGCodes gs s'))"
proof (induction gs arbitrary: s s')
  case Nil
  then show ?case by simp
next
  case (Cons g gs)
  have a: "absoluteMode (snd (applyGCodes gs (s\<lparr>absoluteMode := b\<rparr>))) =
           absoluteMode (snd (applyGCodes gs (s'\<lparr>absoluteMode := b\<rparr>)))" for b
    by (rule Cons.IH) simp
  have c: "absoluteMode (snd (applyGCodes gs s)) = absoluteMode (snd (applyGCodes gs s'))"
    by (rule Cons.IH) (rule Cons.prems)
  show ?case by (simp add: a c Cons.prems)
qed

lemma lastValue_snoc:
  "lastValue c (ws @ [w]) = (if isWord c w then Some (wordValue w) else lastValue c ws)"
  by (simp add: lastValue_def)

lemma wordStep_tool:
  "currentTool (snd (snd (wordStep w v))) =
     (if isWord CHR ''T'' w then Some (js_floor (wordValue w)) else currentTool (snd (snd v)))"
  by (simp add: wordStep_def isWord_def wordValue_def Let_def split: prod.splits list.splits)

lemma wordStep_spindle:
  "currentSpindleSpeed (snd (snd (wordStep w v))) =
     (if isWord CHR ''S'' w then wordValue w else currentSpindleSpeed (snd (snd v)))"
  by (simp add: wordStep_def isWord_def wordValue_def Let_def split: prod.splits list.splits)

lemma fold_wordStep_tool:
  "currentTool (snd (snd (fold wordStep ws v))) =
     (case lastValue CHR ''T'' ws of
        None \<Rightarrow> currentTool (snd (snd v))
      | Some x \<Rightarrow> Some (js_floor x))"
proof (induction ws rule: rev_induct)
  case Nil
  then show ?case by (simp add: lastValue_def)
next
  case (snoc w ws)
  then show ?case by (simp add: lastValue_snoc wordStep_tool)
qed

lemma fold_wordStep_spindle:
  "currentSpindleSpeed (snd (snd (fold wordStep ws v))) =
     (case lastValue CHR ''S'' ws of
        None \<Rightarrow> currentSpindleSpeed (snd (snd v))
      | Some x \<Rightarrow> x)"
proof (induction ws rule: rev_induct)
  case Nil
  then show ?case by (simp add: lastValue_def)
next
  case (snoc w ws)
  then show ?case by (simp add: lastValue_snoc wordStep_spindle)
qed

text \<open>
  C7 (as amended). For every line with a G28, G30 or G399 code among its G codes:
  no segment is emitted, the position, the feed rate, the program-ended flag, the
  last motion kind, the bounds, the move counter, the distances and the feed samples
  are as before the line. When the line is processed at all (the program has not
  ended and the line is not blank and does not begin with \<open>%\<close> or \<open>O\<close>), the
  positioning mode is the one that the G codes before the first skipping code
  leave, and the T and S words of the line take effect wherever they stand: the
  tool-change counter advances by the number of T words, the current tool is the
  floor of the value of the last T word (unchanged when there is none), and the
  spindle speed is the value of the last S word (unchanged when there is none).
  When the line is not processed, the whole state is as before.
\<close>

theorem skipped_line:
  assumes "list_ex isSkipCode (lineGCodes line)"
  shows "segments (parseLine line n s) = segments s
    \<and> position (parseLine line n s) = position s
    \<and> feedRate (parseLine line n s) = feedRate s
    \<and> programEnded (parseLine line n s) = programEnded s
    \<and> lastMoveType (parseLine line n s) = lastMoveType s
    \<and> bounds (parseLine line n s) = bounds s
    \<and> moveCount (parseLine line n s) = moveCount s
    \<and> totalCutDist (parseLine line n s) = totalCutDist s
    \<and> totalRapidDist (parseLine line n s) = totalRapidDist s
    \<and> feedSegments (parseLine line n s) = feedSegments s
    \<and> (\<not> programEnded s \<and> \<not> ignoredLine (cleanLine line) \<longrightarrow>
         absoluteMode (parseLine line n s) =
           absoluteMode (snd (applyGCodes (takeWhile (\<lambda>g. \<not> isSkipCode g) (lineGCodes line)) s))
         \<and> toolChangeCount (parseLine line n s) = toolChangeCount s + lineToolWords line
         \<and> currentTool (parseLine line n s) =
             (case lastWordValue CHR ''T'' line of
                None \<Rightarrow> currentTool s
              | Some v \<Rightarrow> Some (js_floor v))
         \<and> currentSpindleSpeed (parseLine line n s) =
             (case lastWordValue CHR ''S'' line of
                None \<Rightarrow> currentSpindleSpeed s
              | Some v \<Rightarrow> v))
    \<and> (programEnded s \<or> ignoredLine (cleanLine line) \<longrightarrow> parseLine line n s = s)"
proof (cases "programEnded s \<or> ignoredLine (cleanLine line)")
  case True
  then have e: "parseLine line n s = s" by (auto simp: parseLine_def)
  from True have "\<not> (\<not> programEnded s \<and> \<not> ignoredLine (cleanLine line))" by blast
  then show ?thesis by (cases "programEnded s") (simp_all add: e)
next
  case False
  let ?ws = "tokenize (cleanLine line)"
  let ?v = "fold wordStep ?ws ([], Map.empty, s)"
  have g: "fst ?v = lineGCodes line"
    by (simp add: fold_wordStep_gCodes lineGCodes_def)
  from assms have "lineGCodes line \<noteq> []" by auto
  then have ws: "?ws \<noteq> []" by (auto simp: lineGCodes_def)
  have sk: "fst (applyGCodes (fst ?v) (snd (snd ?v)))"
    using assms by (simp add: g applyGCodes_skips)
  have p: "parseLine line n s = snd (applyGCodes (fst ?v) (snd (snd ?v)))"
    using False ws sk by (simp add: parseLine_def Let_def case_prod_beta)
  have m: "absoluteMode (snd (applyGCodes (lineGCodes line) (snd (snd ?v)))) =
           absoluteMode (snd (applyGCodes (lineGCodes line) s))"
    by (rule applyGCodes_absoluteMode_state) simp
  have a: "absoluteMode (parseLine line n s) =
           absoluteMode (snd (applyGCodes (takeWhile (\<lambda>g. \<not> isSkipCode g) (lineGCodes line)) s))"
    unfolding p g using m applyGCodes_absoluteMode_prefix [of "lineGCodes line" s] by simp
  have t: "toolChangeCount (parseLine line n s) = toolChangeCount s + lineToolWords line"
    unfolding p by (simp add: fold_wordStep_toolChangeCount lineToolWords_def)
  have c: "currentTool (parseLine line n s) =
             (case lastWordValue CHR ''T'' line of
                None \<Rightarrow> currentTool s
              | Some v \<Rightarrow> Some (js_floor v))"
    unfolding p by (simp add: fold_wordStep_tool lastWordValue_def split: option.splits)
  have d: "currentSpindleSpeed (parseLine line n s) =
             (case lastWordValue CHR ''S'' line of
                None \<Rightarrow> currentSpindleSpeed s
              | Some v \<Rightarrow> v)"
    unfolding p by (simp add: fold_wordStep_spindle lastWordValue_def split: option.splits)
  have f: "segments (parseLine line n s) = segments s"
    "position (parseLine line n s) = position s"
    "feedRate (parseLine line n s) = feedRate s"
    "programEnded (parseLine line n s) = programEnded s"
    "lastMoveType (parseLine line n s) = lastMoveType s"
    "bounds (parseLine line n s) = bounds s"
    "moveCount (parseLine line n s) = moveCount s"
    "totalCutDist (parseLine line n s) = totalCutDist s"
    "totalRapidDist (parseLine line n s) = totalRapidDist s"
    "feedSegments (parseLine line n s) = feedSegments s"
    unfolding p by (simp_all add: position_def)
  show ?thesis
    using False a t c d f by simp
qed

theorem skipped_line_witness:
  "list_ex isSkipCode (lineGCodes ''G91 T3 G28 G90 X5 F20 S1200 T4.7 M30'')
   \<and> \<not> programEnded reset \<and> \<not> ignoredLine (cleanLine ''G91 T3 G28 G90 X5 F20 S1200 T4.7 M30'')
   \<and> segments (parseLine ''G91 T3 G28 G90 X5 F20 S1200 T4.7 M30'' 1 reset) = []
   \<and> position (parseLine ''G91 T3 G28 G90 X5 F20 S1200 T4.7 M30'' 1 reset) = position reset
   \<and> feedRate (parseLine ''G91 T3 G28 G90 X5 F20 S1200 T4.7 M30'' 1 reset) = Fin 0
   \<and> \<not> programEnded (parseLine ''G91 T3 G28 G90 X5 F20 S1200 T4.7 M30'' 1 reset)
   \<and> \<not> absoluteMode (parseLine ''G91 T3 G28 G90 X5 F20 S1200 T4.7 M30'' 1 reset)
   \<and> toolChangeCount (parseLine ''G91 T3 G28 G90 X5 F20 S1200 T4.7 M30'' 1 reset) = 2
   \<and> currentTool (parseLine ''G91 T3 G28 G90 X5 F20 S1200 T4.7 M30'' 1 reset) = Some (Fin 4)
   \<and> currentSpindleSpeed (parseLine ''G91 T3 G28 G90 X5 F20 S1200 T4.7 M30'' 1 reset) = Fin 1200
   \<and> list_ex isSkipCode (lineGCodes ''O100 G28 T5'')
   \<and> ignoredLine (cleanLine ''O100 G28 T5'')
   \<and> parseLine ''O100 G28 T5'' 1 reset = reset"
proof -
  let ?l = "''G91 T3 G28 G90 X5 F20 S1200 T4.7 M30''"
  have w: "tokenize (cleanLine ?l) =
    [''G91'', ''T3'', ''G28'', ''G90'', ''X5'', ''F20'', ''S1200'', ''T4.7'', ''M30'']"
    by (simp add: text_defs)
  have g: "lineGCodes ?l = [Fin 91, Fin 28, Fin 90]"
    by (simp add: lineGCodes_def w isWord_def wordValue_def parseFloat_def optMinus_def
        isDigit_def digitsVal_def digitVal_def)
  have tw: "lineToolWords ?l = 2"
    by (simp add: lineToolWords_def w isWord_def)
  have lt: "lastWordValue CHR ''T'' ?l = Some (Fin 4.7)"
    by (simp add: lastWordValue_def lastValue_def w isWord_def wordValue_def parseFloat_def
        optMinus_def isDigit_def digitsVal_def digitVal_def)
  have ls: "lastWordValue CHR ''S'' ?l = Some (Fin 1200)"
    by (simp add: lastWordValue_def lastValue_def w isWord_def wordValue_def parseFloat_def
        optMinus_def isDigit_def digitsVal_def digitVal_def)
  have h: "list_ex isSkipCode (lineGCodes ?l)"
    by (simp add: g isSkipCode_def js_seq_def)
  have i: "\<not> programEnded reset \<and> \<not> ignoredLine (cleanLine ?l)"
    by (simp add: reset_def text_defs)
  have fl: "js_floor (Fin 4.7) = Fin 4"
    by simp
  have w2: "tokenize (cleanLine ''O100 G28 T5'') = [''O100'', ''G28'', ''T5'']"
    by (simp add: text_defs)
  have g2: "lineGCodes ''O100 G28 T5'' = [Fin 28]"
    by (simp add: lineGCodes_def w2 isWord_def wordValue_def parseFloat_def optMinus_def
        isDigit_def digitsVal_def digitVal_def)
  have h2: "list_ex isSkipCode (lineGCodes ''O100 G28 T5'')"
    by (simp add: g2 isSkipCode_def js_seq_def)
  have i2: "ignoredLine (cleanLine ''O100 G28 T5'')"
    by (simp add: text_defs)
  have r: "parseLine ''O100 G28 T5'' 1 reset = reset"
    using skipped_line [OF h2, of 1 reset] i2 by blast
  from skipped_line [OF h, of 1 reset] h i h2 i2 r show ?thesis
    by (simp add: g tw lt ls fl isSkipCode_def js_seq_def reset_def)
qed

text \<open>
  As stated (no state change from any code after the skipping one) the claim fails:
  T and S words are applied in the first loop over the words, before the loop over
  the G codes reaches G28.
\<close>

theorem skipped_line_counterexample:
  "tokenize (cleanLine ''G28 T2 S900'') = [''G28'', ''T2'', ''S900'']
   \<and> list_ex isSkipCode (lineGCodes ''G28 T2 S900'')
   \<and> toolChangeCount reset = 0
   \<and> toolChangeCount (parseLine ''G28 T2 S900'' 1 reset) = 1
   \<and> currentTool reset = None
   \<and> currentTool (parseLine ''G28 T2 S900'' 1 reset) = Some (Fin 2)
   \<and> currentSpindleSpeed reset = Fin 0
   \<and> currentSpindleSpeed (parseLine ''G28 T2 S900'' 1 reset) = Fin 900"
  by (simp add: lineGCodes_def isWord_def wordValue_def text_defs num_defs line_defs Let_def)

section \<open>Cycle time\<close>

lemma parseLine_toolChangeCount:
  "toolChangeCount (parseLine line n s) =
     toolChangeCount s +
       (if programEnded s \<or> ignoredLine (cleanLine line) then 0 else lineToolWords line)"
  by (simp add: parseLine_def Let_def case_prod_beta fold_wordStep_toolChangeCount
      lineToolWords_def split: option.splits)

lemma parseLines_toolChangeCount:
  "toolChangeCount (parseLines ls i s) \<le> toolChangeCount s + sum_list (map lineToolWords ls)"
proof (induction ls arbitrary: i s)
  case Nil
  show ?case by simp
next
  case (Cons l ls)
  have "toolChangeCount (parseLines ls (i + 1) (parseLine l (i + 1) s))
          \<le> toolChangeCount (parseLine l (i + 1) s) + sum_list (map lineToolWords ls)"
    by (rule Cons.IH)
  moreover have "toolChangeCount (parseLine l (i + 1) s) \<le> toolChangeCount s + lineToolWords l"
    by (simp add: parseLine_toolChangeCount)
  ultimately show ?case by simp
qed

lemma parseMoves_toolChangeCount:
  "toolChangeCount (parseMoves t) \<le> sum_list (map lineToolWords (split_lines t))"
  using parseLines_toolChangeCount
    [of "split_lines t" 0 "reset\<lparr>lineCount := length (split_lines t)\<rparr>"]
  by (simp add: parseMoves_def Let_def reset_def)

lemma toolChangeTime_parse:
  "ct_toolChangeTime (res_cycleTime (parse t)) =
     Fin (max 0 (real (toolChangeCount (parseMoves t)) - 1) * 8)"
  by (simp add: parse_def calculateCycleTime_def Let_def toolChange_value)

text \<open>
  C6 (as amended). For every input, the total of the cycle-time estimate is the
  rapid time plus the cut time plus the tool-change time; the tool-change time is
  \<open>max(0, toolChangeCount - 1)\<close> times the fixed duration of 8 seconds, and it is
  zero when the counter is at most one. The counter counts T words, not tools:
  a line that is processed (the program has not ended, the line does not begin
  with \<open>%\<close> or \<open>O\<close>) advances it by the number of its T words, whatever tools they
  name, and a line that is not processed leaves it as it is. So the counter is at
  most the number of T words of the text, and the tool-change time is zero when the
  text has at most one T word.
\<close>

theorem cycle_time_total:
  "totalTime (res_cycleTime (parse t)) =
     js_add (js_add (rapidTime (res_cycleTime (parse t))) (cutTime (res_cycleTime (parse t))))
       (ct_toolChangeTime (res_cycleTime (parse t)))
   \<and> ct_toolChangeTime (res_cycleTime (parse t)) =
       Fin (max 0 (real (toolChangeCount (parseMoves t)) - 1) * 8)
   \<and> (toolChangeCount (parseMoves t) \<le> 1 \<longrightarrow>
        ct_toolChangeTime (res_cycleTime (parse t)) = Fin 0)
   \<and> toolChangeCount (parseLine line n s) =
       toolChangeCount s +
         (if programEnded s \<or> ignoredLine (cleanLine line) then 0 else lineToolWords line)
   \<and> toolChangeCount (parseMoves t) \<le> sum_list (map lineToolWords (split_lines t))
   \<and> (sum_list (map lineToolWords (split_lines t)) \<le> 1 \<longrightarrow>
        ct_toolChangeTime (res_cycleTime (parse t)) = Fin 0)"
proof -
  have a: "totalTime (res_cycleTime (parse t)) =
     js_add (js_add (rapidTime (res_cycleTime (parse t))) (cutTime (res_cycleTime (parse t))))
       (ct_toolChangeTime (res_cycleTime (parse t)))"
    by (simp add: parse_def calculateCycleTime_def Let_def)
  have b: "ct_toolChangeTime (res_cycleTime (parse t)) =
       Fin (max 0 (real (toolChangeCount (parseMoves t)) - 1) * 8)"
    by (rule toolChangeTime_parse)
  have c: "ct_toolChangeTime (res_cycleTime (parse t)) = Fin 0"
    if "toolChangeCount (parseMoves t) \<le> 1"
    using that by (simp add: b)
  have d: "toolChangeCount (parseMoves t) \<le> 1"
    if "sum_list (map lineToolWords (split_lines t)) \<le> 1"
    using that parseMoves_toolChangeCount [of t] by simp
  show ?thesis
    using a b c d parseLine_toolChangeCount [of line n s] parseMoves_toolChangeCount [of t]
    by blast
qed

lemma tool_words_example:
  "split_lines ''T1\<newline>G1 X1 F50'' = [''T1'', ''G1 X1 F50'']"
  "lineToolWords ''T1'' = 1"
  "lineToolWords ''G1 X1 F50'' = 0"
  "lineToolWords ''T1 T1'' = 2"
  "\<not> ignoredLine (cleanLine ''T1 T1'')"
  by (simp_all add: lineToolWords_def isWord_def text_defs ignoredLine_def Let_def)

theorem cycle_time_total_witness:
  "toolChangeCount (parseMoves ''T1\<newline>G1 X1 F50'') \<le> 1
   \<and> toolChangeCount (parseMoves ''T1\<newline>G1 X1 F50'') = 1
   \<and> sum_list (map lineToolWords (split_lines ''T1\<newline>G1 X1 F50'')) \<le> 1
   \<and> ct_toolChangeTime (res_cycleTime (parse ''T1\<newline>G1 X1 F50'')) = Fin 0
   \<and> toolChangeCount (parseLine ''T1 T1'' 1 reset) = 2"
proof -
  have n: "toolChangeCount (parseMoves ''T1\<newline>G1 X1 F50'') = 1"
    by (simp add: parseMoves_def text_defs num_defs line_defs Let_def)
  then have m: "toolChangeCount (parseMoves ''T1\<newline>G1 X1 F50'') \<le> 1" by simp
  have k: "sum_list (map lineToolWords (split_lines ''T1\<newline>G1 X1 F50'')) \<le> 1"
    by (simp add: tool_words_example)
  have r: "\<not> (programEnded reset \<or> ignoredLine (cleanLine ''T1 T1''))" "toolChangeCount reset = 0"
    by (simp_all add: tool_words_example reset_def)
  have "toolChangeCount (parseLine ''T1 T1'' 1 reset) = 2"
    using cycle_time_total [of "''T1\<newline>G1 X1 F50''" "''T1 T1''" 1 reset] r
    by (simp add: tool_words_example)
  with cycle_time_total [of "''T1\<newline>G1 X1 F50''" "''T1 T1''" 1 reset] n m k show ?thesis
    by blast
qed

text \<open>
  As stated, with at most one distinct tool change, the claim fails. The program
  \<open>T1\<close>, \<open>T1\<close> names the one tool 1 twice: tool 1 is current after the first line
  and after the second, no tool is changed for another, and still the counter is 2
  and the tool-change time 8 seconds. The program \<open>T1\<close>, \<open>T2\<close> loads tool 1 and
  changes it once, for tool 2: the counter is 2 and the tool-change time 8 seconds
  as well.
\<close>

theorem cycle_time_counterexample:
  "currentTool (parseMoves ''T1'') = Some (Fin 1)
   \<and> currentTool (parseMoves ''T1\<newline>T1'') = Some (Fin 1)
   \<and> toolChangeCount (parseMoves ''T1\<newline>T1'') = 2
   \<and> ct_toolChangeTime (res_cycleTime (parse ''T1\<newline>T1'')) = Fin 8
   \<and> currentTool (parseMoves ''T1\<newline>T2'') = Some (Fin 2)
   \<and> toolChangeCount (parseMoves ''T1\<newline>T2'') = 2
   \<and> ct_toolChangeTime (res_cycleTime (parse ''T1\<newline>T2'')) = Fin 8"
proof -
  have a: "currentTool (parseMoves ''T1'') = Some (Fin 1)"
    "currentTool (parseMoves ''T1\<newline>T1'') = Some (Fin 1)"
    "toolChangeCount (parseMoves ''T1\<newline>T1'') = 2"
    "currentTool (parseMoves ''T1\<newline>T2'') = Some (Fin 2)"
    "toolChangeCount (parseMoves ''T1\<newline>T2'') = 2"
    by (simp_all add: parseMoves_def text_defs num_defs line_defs Let_def)
  show ?thesis by (simp add: a toolChangeTime_parse)
qed

section \<open>Arithmetic on finite numbers\<close>

lemma fin_neg: "is_fin a \<Longrightarrow> is_fin (js_neg a) \<and> rv (js_neg a) = - rv a"
  by (cases a) simp_all

lemma fin_add:
  "is_fin a \<Longrightarrow> is_fin b \<Longrightarrow> is_fin (js_add a b) \<and> rv (js_add a b) = rv a + rv b"
  by (cases a; cases b) simp_all

lemma fin_sub:
  "is_fin a \<Longrightarrow> is_fin b \<Longrightarrow> is_fin (js_sub a b) \<and> rv (js_sub a b) = rv a - rv b"
  using fin_add [of a "js_neg b"] fin_neg [of b] by (simp add: js_sub_def)

lemma fin_mul:
  "is_fin a \<Longrightarrow> is_fin b \<Longrightarrow> is_fin (js_mul a b) \<and> rv (js_mul a b) = rv a * rv b"
  by (cases a; cases b) (simp_all add: js_mul_def signed_def)

lemma fin_lt: "is_fin a \<Longrightarrow> is_fin b \<Longrightarrow> js_lt a b \<longleftrightarrow> rv a < rv b"
  by (cases a; cases b) simp_all

lemma fin_le: "is_fin a \<Longrightarrow> is_fin b \<Longrightarrow> js_le a b \<longleftrightarrow> rv a \<le> rv b"
  by (cases a; cases b) (auto simp: js_le_def)

lemma step_fraction:
  "js_div (Fin (real k)) (Fin (real arcSegments)) = Fin (real k / 32)"
  by (simp add: js_div_def signed_def arcSegments_def)

lemma pi_facts:
  "- (pi / 2) \<le> pi" "- pi \<le> pi / 2" "- pi \<le> pi" "pi / 2 \<le> pi" "- pi \<le> - (pi / 2)"
  "- pi \<le> pi / 4" "pi / 4 \<le> pi" "- pi \<le> - (pi / 4)" "- (pi / 4) \<le> pi"
  "- pi \<le> 3 * pi / 4" "3 * pi / 4 \<le> pi" "- pi \<le> - (3 * pi / 4)" "- (3 * pi / 4) \<le> pi"
  using pi_gt_zero by linarith+

lemma atan2_range:
  "js_atan2 y x = NaN
   \<or> (is_fin (js_atan2 y x) \<and> - pi \<le> rv (js_atan2 y x) \<and> rv (js_atan2 y x) \<le> pi)"
proof (cases y)
  case (Fin b)
  show ?thesis
  proof (cases x)
    case (Fin a)
    have l: "- (pi / 2) < arctan (b / a)" and u: "arctan (b / a) < pi / 2"
      by (rule arctan_lbound, rule arctan_ubound)
    have n: "arctan (b / a) \<le> 0" if "a < 0" "0 < b"
      using that by (simp add: divide_le_0_iff order_less_imp_le)
    have p: "0 \<le> arctan (b / a)" if "a < 0" "b < 0"
      using that by (simp add: zero_le_divide_iff order_less_imp_le)
    have c: "- pi \<le> arctan (b / a)" "arctan (b / a) \<le> pi"
      using l u pi_gt_zero by linarith+
    show ?thesis
      using n p c by (auto simp: \<open>y = Fin b\<close> Fin pi_facts)
  qed (simp_all add: Fin pi_facts)
next
  case NZero
  then show ?thesis by (cases x) (simp_all add: pi_facts)
qed (cases x; simp add: pi_facts)+


section \<open>Direction of arcs\<close>

lemma atan2_inTurn: "js_atan2 y x \<noteq> NaN \<Longrightarrow> inTurn (js_atan2 y x)"
  using atan2_range [of y x] by (simp add: inTurn_def)

lemma full_turn: "js_mul (Fin 2) js_PI = Fin (2 * pi)"
  by (simp add: js_mul_def js_PI_def signed_def)

lemma js_sub_NaN: "js_sub a b \<noteq> NaN \<Longrightarrow> a \<noteq> NaN \<and> b \<noteq> NaN"
  by (cases a; cases b) (simp_all add: js_sub_def)

lemma correctedEndAngle_NaN: "correctedEndAngle cw sa NaN = NaN"
  by (simp add: correctedEndAngle_def js_ge_def js_le_def)

lemma span_clockwise:
  assumes "inTurn sa" "inTurn ea"
  shows "is_fin (js_sub (correctedEndAngle True sa ea) sa)
    \<and> rv (js_sub (correctedEndAngle True sa ea) sa) \<le> 0
    \<and> (rv (js_sub (correctedEndAngle True sa ea) sa) < 0 \<or> (rv sa = - pi \<and> rv ea = pi))"
proof (cases "rv sa \<le> rv ea")
  case True
  have f: "is_fin sa" "is_fin ea" using assms by (simp_all add: inTurn_def)
  have c: "correctedEndAngle True sa ea = js_sub ea (Fin (2 * pi))"
    using True f by (simp add: correctedEndAngle_def js_ge_def fin_le full_turn)
  have e: "is_fin (js_sub ea (Fin (2 * pi)))" "rv (js_sub ea (Fin (2 * pi))) = rv ea - 2 * pi"
    using fin_sub [of ea "Fin (2 * pi)"] f by simp_all
  have "is_fin (js_sub (js_sub ea (Fin (2 * pi))) sa)"
    "rv (js_sub (js_sub ea (Fin (2 * pi))) sa) = rv ea - 2 * pi - rv sa"
    using fin_sub [of "js_sub ea (Fin (2 * pi))" sa] e f by simp_all
  moreover have "rv ea \<le> pi" "- pi \<le> rv sa" using assms by (simp_all add: inTurn_def)
  ultimately show ?thesis unfolding c by (simp, linarith)
next
  case False
  have f: "is_fin sa" "is_fin ea" using assms by (simp_all add: inTurn_def)
  have c: "correctedEndAngle True sa ea = ea"
    using False f by (simp add: correctedEndAngle_def js_ge_def fin_le)
  show ?thesis unfolding c using fin_sub [of ea sa] f False by simp
qed

lemma span_counterclockwise:
  assumes "inTurn sa" "inTurn ea"
  shows "is_fin (js_sub (correctedEndAngle False sa ea) sa)
    \<and> 0 \<le> rv (js_sub (correctedEndAngle False sa ea) sa)
    \<and> (0 < rv (js_sub (correctedEndAngle False sa ea) sa) \<or> (rv sa = pi \<and> rv ea = - pi))"
proof (cases "rv ea \<le> rv sa")
  case True
  have f: "is_fin sa" "is_fin ea" using assms by (simp_all add: inTurn_def)
  have c: "correctedEndAngle False sa ea = js_add ea (Fin (2 * pi))"
    using True f by (simp add: correctedEndAngle_def fin_le full_turn)
  have e: "is_fin (js_add ea (Fin (2 * pi)))" "rv (js_add ea (Fin (2 * pi))) = rv ea + 2 * pi"
    using fin_add [of ea "Fin (2 * pi)"] f by simp_all
  have "is_fin (js_sub (js_add ea (Fin (2 * pi))) sa)"
    "rv (js_sub (js_add ea (Fin (2 * pi))) sa) = rv ea + 2 * pi - rv sa"
    using fin_sub [of "js_add ea (Fin (2 * pi))" sa] e f by simp_all
  moreover have "- pi \<le> rv ea" "rv sa \<le> pi" using assms by (simp_all add: inTurn_def)
  ultimately show ?thesis unfolding c by (simp, linarith)
next
  case False
  have f: "is_fin sa" "is_fin ea" using assms by (simp_all add: inTurn_def)
  have c: "correctedEndAngle False sa ea = ea"
    using False f by (simp add: correctedEndAngle_def fin_le)
  show ?thesis unfolding c using fin_sub [of ea sa] f False by simp
qed

lemma stepAngle_value:
  assumes "is_fin sa" "is_fin sw"
  shows "is_fin (stepAngle sa sw k) \<and> rv (stepAngle sa sw k) = rv sa + rv sw * (real k / 32)"
proof -
  have m: "is_fin (js_mul sw (Fin (real k / 32)))"
    "rv (js_mul sw (Fin (real k / 32))) = rv sw * (real k / 32)"
    using fin_mul [of sw "Fin (real k / 32)"] assms by simp_all
  show ?thesis
    unfolding stepAngle_def step_fraction
    using fin_add [of sa "js_mul sw (Fin (real k / 32))"] m assms by simp
qed

lemma stepAngle_le:
  assumes "is_fin sa" "is_fin sw"
  shows "js_le (stepAngle sa sw j) (stepAngle sa sw k) \<longleftrightarrow>
         rv sw * real j \<le> rv sw * real k"
  using stepAngle_value [OF assms, of j] stepAngle_value [OF assms, of k]
  by (simp add: fin_le)

lemma fin_value: "is_fin a \<Longrightarrow> rv a \<noteq> 0 \<Longrightarrow> a = Fin (rv a)"
  by (cases a) simp_all

lemma arcGeometry_span:
  "arc_angleSpan (arcGeometry type params s) =
     js_sub (correctedEndAngle (type = cw_arc) (arc_startAngle (arcGeometry type params s))
               (arcRawEndAngle params s))
       (arc_startAngle (arcGeometry type params s))"
  by (simp add: arcGeometry_def arcRawEndAngle_def position_def Let_def)

lemma arcGeometry_inTurn:
  "arcRawEndAngle params s = NaN \<or> inTurn (arcRawEndAngle params s)"
  "arc_startAngle (arcGeometry type params s) = NaN
     \<or> inTurn (arc_startAngle (arcGeometry type params s))"
  using atan2_inTurn by (auto simp: arcGeometry_def arcRawEndAngle_def Let_def)

lemma correctedEndAngle_cases:
  assumes "sa \<noteq> NaN" "ea \<noteq> NaN"
  shows "correctedEndAngle True sa ea =
           (if js_lt ea sa then ea else js_sub ea (js_mul (Fin 2) js_PI))"
    and "correctedEndAngle False sa ea =
           (if js_lt sa ea then ea else js_add ea (js_mul (Fin 2) js_PI))"
  using assms by (simp_all add: correctedEndAngle_def js_ge_def js_le_def)

text \<open>
  C3 (as amended). For every arc whose swept angle is not NaN, the swept angle is
  the corrected end angle minus the start angle. When the arc is clockwise, each
  interpolated angle is at most the one before it, and the swept angle is negative
  unless the start angle is \<open>-\<pi>\<close> and the raw end angle is \<open>\<pi>\<close>. When it is
  counterclockwise, each interpolated angle is at least the one before it, and the
  swept angle is positive unless the start angle is \<open>\<pi>\<close> and the raw end angle is
  \<open>-\<pi>\<close>. Of the swept angle of an arc with one of these two pairs of angles nothing
  is stated. For a start and an end angle that are not NaN, the clockwise
  correction subtracts a full turn exactly when the end angle is not less than the
  start angle, and the counterclockwise one adds a full turn exactly when it is not
  greater.
\<close>

theorem arc_direction:
  assumes "arc_angleSpan (arcGeometry type params s) \<noteq> NaN"
  shows "arc_angleSpan (arcGeometry type params s) =
           js_sub (correctedEndAngle (type = cw_arc) (arc_startAngle (arcGeometry type params s))
                     (arcRawEndAngle params s))
             (arc_startAngle (arcGeometry type params s))
       \<and> (type = cw_arc \<longrightarrow>
            (\<forall>k. js_le
                  (stepAngle (arc_startAngle (arcGeometry type params s))
                     (arc_angleSpan (arcGeometry type params s)) (Suc k))
                  (stepAngle (arc_startAngle (arcGeometry type params s))
                     (arc_angleSpan (arcGeometry type params s)) k))
            \<and> (\<not> (arc_startAngle (arcGeometry type params s) = Fin (- pi)
                    \<and> arcRawEndAngle params s = Fin pi) \<longrightarrow>
                 js_lt (arc_angleSpan (arcGeometry type params s)) (Fin 0)))
       \<and> (type \<noteq> cw_arc \<longrightarrow>
            (\<forall>k. js_le
                  (stepAngle (arc_startAngle (arcGeometry type params s))
                     (arc_angleSpan (arcGeometry type params s)) k)
                  (stepAngle (arc_startAngle (arcGeometry type params s))
                     (arc_angleSpan (arcGeometry type params s)) (Suc k)))
            \<and> (\<not> (arc_startAngle (arcGeometry type params s) = Fin pi
                    \<and> arcRawEndAngle params s = Fin (- pi)) \<longrightarrow>
                 js_lt (Fin 0) (arc_angleSpan (arcGeometry type params s))))
       \<and> (a \<noteq> NaN \<and> e \<noteq> NaN \<longrightarrow>
            correctedEndAngle True a e =
              (if js_lt e a then e else js_sub e (js_mul (Fin 2) js_PI))
            \<and> correctedEndAngle False a e =
              (if js_lt a e then e else js_add e (js_mul (Fin 2) js_PI)))"
proof -
  let ?g = "arcGeometry type params s"
  let ?sa = "arc_startAngle ?g"
  let ?sw = "arc_angleSpan ?g"
  let ?ea = "arcRawEndAngle params s"
  have sw: "?sw = js_sub (correctedEndAngle (type = cw_arc) ?sa ?ea) ?sa"
    by (rule arcGeometry_span)
  from assms sw have n: "correctedEndAngle (type = cw_arc) ?sa ?ea \<noteq> NaN" "?sa \<noteq> NaN"
    using js_sub_NaN by metis+
  with correctedEndAngle_NaN have "?ea \<noteq> NaN" by metis
  with n arcGeometry_inTurn(1) [of params s] arcGeometry_inTurn(2) [of type params s] have t: "inTurn ?sa" "inTurn ?ea" by simp_all
  then have fs: "is_fin ?sa" and fe: "is_fin ?ea" by (simp_all add: inTurn_def)
  have pz: "pi \<noteq> 0" "- pi \<noteq> 0" using pi_gt_zero by simp_all
  have cw: "(\<forall>k. js_le (stepAngle ?sa ?sw (Suc k)) (stepAngle ?sa ?sw k))
            \<and> (\<not> (?sa = Fin (- pi) \<and> ?ea = Fin pi) \<longrightarrow> js_lt ?sw (Fin 0))"
    if c: "type = cw_arc"
  proof -
    from span_clockwise [OF t] sw c
    have f: "is_fin ?sw" and le: "rv ?sw \<le> 0"
      and lt: "rv ?sw < 0 \<or> (rv ?sa = - pi \<and> rv ?ea = pi)"
      by simp_all
    have "?sa = Fin (- pi) \<and> ?ea = Fin pi" if "rv ?sa = - pi \<and> rv ?ea = pi"
      using fin_value [OF fs] fin_value [OF fe] that pz by simp
    with lt have "js_lt ?sw (Fin 0) \<or> (?sa = Fin (- pi) \<and> ?ea = Fin pi)"
      using f by (auto simp: fin_lt)
    moreover have "js_le (stepAngle ?sa ?sw (Suc k)) (stepAngle ?sa ?sw k)" for k
      unfolding stepAngle_le [OF fs f] using le by (simp add: mult_left_mono_neg)
    ultimately show ?thesis by blast
  qed
  have ccw: "(\<forall>k. js_le (stepAngle ?sa ?sw k) (stepAngle ?sa ?sw (Suc k)))
            \<and> (\<not> (?sa = Fin pi \<and> ?ea = Fin (- pi)) \<longrightarrow> js_lt (Fin 0) ?sw)"
    if c: "type \<noteq> cw_arc"
  proof -
    from span_counterclockwise [OF t] sw c
    have f: "is_fin ?sw" and le: "0 \<le> rv ?sw"
      and lt: "0 < rv ?sw \<or> (rv ?sa = pi \<and> rv ?ea = - pi)"
      by simp_all
    have "?sa = Fin pi \<and> ?ea = Fin (- pi)" if "rv ?sa = pi \<and> rv ?ea = - pi"
      using fin_value [OF fs] fin_value [OF fe] that pz by simp
    with lt have "js_lt (Fin 0) ?sw \<or> (?sa = Fin pi \<and> ?ea = Fin (- pi))"
      using f by (auto simp: fin_lt)
    moreover have "js_le (stepAngle ?sa ?sw k) (stepAngle ?sa ?sw (Suc k))" for k
      unfolding stepAngle_le [OF fs f] using le by (simp add: mult_left_mono)
    ultimately show ?thesis by blast
  qed
  show ?thesis
    using sw cw ccw correctedEndAngle_cases [of a e] by blast
qed


lemmas arc_defs =
  arcGeometry_def arcRawEndAngle_def arcEndPoint_def arcEnd_def orElse_def
  correctedEndAngle_def position_def reset_def js_PI_def Let_def

lemma half_circle_angles:
  "arc_startAngle (arcGeometry cw_arc
     [CHR ''X'' \<mapsto> Fin 10, CHR ''Y'' \<mapsto> Fin 0, CHR ''I'' \<mapsto> Fin 5, CHR ''J'' \<mapsto> Fin 0] reset)
     = Fin pi"
  "arcRawEndAngle
     [CHR ''X'' \<mapsto> Fin 10, CHR ''Y'' \<mapsto> Fin 0, CHR ''I'' \<mapsto> Fin 5, CHR ''J'' \<mapsto> Fin 0] reset
     = Fin 0"
  "arc_angleSpan (arcGeometry cw_arc
     [CHR ''X'' \<mapsto> Fin 10, CHR ''Y'' \<mapsto> Fin 0, CHR ''I'' \<mapsto> Fin 5, CHR ''J'' \<mapsto> Fin 0] reset)
     = Fin (- pi)"
  by (simp_all add: arc_defs num_defs)

lemma full_circle_angles:
  "arc_startAngle (arcGeometry ccw_arc
     [CHR ''X'' \<mapsto> Fin 0, CHR ''Y'' \<mapsto> Fin 0, CHR ''I'' \<mapsto> Fin 1, CHR ''J'' \<mapsto> Fin 0] reset)
     = Fin pi"
  "arcRawEndAngle
     [CHR ''X'' \<mapsto> Fin 0, CHR ''Y'' \<mapsto> Fin 0, CHR ''I'' \<mapsto> Fin 1, CHR ''J'' \<mapsto> Fin 0] reset
     = Fin pi"
  "arc_angleSpan (arcGeometry ccw_arc
     [CHR ''X'' \<mapsto> Fin 0, CHR ''Y'' \<mapsto> Fin 0, CHR ''I'' \<mapsto> Fin 1, CHR ''J'' \<mapsto> Fin 0] reset)
     = Fin (2 * pi)"
  by (simp_all add: arc_defs num_defs)

theorem arc_direction_witness:
  "arc_angleSpan (arcGeometry cw_arc
     [CHR ''X'' \<mapsto> Fin 10, CHR ''Y'' \<mapsto> Fin 0, CHR ''I'' \<mapsto> Fin 5, CHR ''J'' \<mapsto> Fin 0] reset)
     = Fin (- pi)
   \<and> arc_startAngle (arcGeometry cw_arc
     [CHR ''X'' \<mapsto> Fin 10, CHR ''Y'' \<mapsto> Fin 0, CHR ''I'' \<mapsto> Fin 5, CHR ''J'' \<mapsto> Fin 0] reset)
     = Fin pi
   \<and> js_lt (Fin (- pi)) (Fin 0)
   \<and> js_le (stepAngle (Fin pi) (Fin (- pi)) (Suc (Suc 0))) (stepAngle (Fin pi) (Fin (- pi)) (Suc 0))
   \<and> arc_angleSpan (arcGeometry ccw_arc
     [CHR ''X'' \<mapsto> Fin 0, CHR ''Y'' \<mapsto> Fin 0, CHR ''I'' \<mapsto> Fin 1, CHR ''J'' \<mapsto> Fin 0] reset)
     = Fin (2 * pi)
   \<and> arc_startAngle (arcGeometry ccw_arc
     [CHR ''X'' \<mapsto> Fin 0, CHR ''Y'' \<mapsto> Fin 0, CHR ''I'' \<mapsto> Fin 1, CHR ''J'' \<mapsto> Fin 0] reset)
     = Fin pi
   \<and> arcRawEndAngle
     [CHR ''X'' \<mapsto> Fin 0, CHR ''Y'' \<mapsto> Fin 0, CHR ''I'' \<mapsto> Fin 1, CHR ''J'' \<mapsto> Fin 0] reset
     = Fin pi
   \<and> js_lt (Fin 0) (Fin (2 * pi))
   \<and> js_le (stepAngle (Fin pi) (Fin (2 * pi)) (Suc 0)) (stepAngle (Fin pi) (Fin (2 * pi)) (Suc (Suc 0)))
   \<and> correctedEndAngle True (Fin 1) (Fin 2) = js_sub (Fin 2) (js_mul (Fin 2) js_PI)
   \<and> correctedEndAngle False (Fin 2) (Fin 1) = js_add (Fin 1) (js_mul (Fin 2) js_PI)"
proof -
  let ?p = "[CHR ''X'' \<mapsto> Fin 10, CHR ''Y'' \<mapsto> Fin 0, CHR ''I'' \<mapsto> Fin 5, CHR ''J'' \<mapsto> Fin 0]"
  let ?q = "[CHR ''X'' \<mapsto> Fin 0, CHR ''Y'' \<mapsto> Fin 0, CHR ''I'' \<mapsto> Fin 1, CHR ''J'' \<mapsto> Fin 0]"
  have pn: "Fin pi \<noteq> Fin (- pi)" using pi_gt_zero by simp
  have a: "arc_angleSpan (arcGeometry cw_arc ?p reset) \<noteq> NaN"
    and b: "arc_angleSpan (arcGeometry ccw_arc ?q reset) \<noteq> NaN"
    by (simp_all add: half_circle_angles full_circle_angles)
  have na: "\<not> (arc_startAngle (arcGeometry cw_arc ?p reset) = Fin (- pi)
              \<and> arcRawEndAngle ?p reset = Fin pi)"
    using pn by (simp add: half_circle_angles)
  have nb: "\<not> (arc_startAngle (arcGeometry ccw_arc ?q reset) = Fin pi
              \<and> arcRawEndAngle ?q reset = Fin (- pi))"
    using pn by (simp add: full_circle_angles)
  have c: "cw_arc = cw_arc" "ccw_arc \<noteq> cw_arc" "Fin 1 \<noteq> NaN \<and> Fin 2 \<noteq> NaN"
    "Fin 2 \<noteq> NaN \<and> Fin 1 \<noteq> NaN" by simp_all
  have x: "js_lt (arc_angleSpan (arcGeometry cw_arc ?p reset)) (Fin 0)"
    "js_le
       (stepAngle (arc_startAngle (arcGeometry cw_arc ?p reset))
          (arc_angleSpan (arcGeometry cw_arc ?p reset)) (Suc (Suc 0)))
       (stepAngle (arc_startAngle (arcGeometry cw_arc ?p reset))
          (arc_angleSpan (arcGeometry cw_arc ?p reset)) (Suc 0))"
    "correctedEndAngle True (Fin 1) (Fin 2) = js_sub (Fin 2) (js_mul (Fin 2) js_PI)"
    using arc_direction [OF a, of "Fin 1" "Fin 2"] na c by (blast, blast, simp)
  have y: "js_lt (Fin 0) (arc_angleSpan (arcGeometry ccw_arc ?q reset))"
    "js_le
       (stepAngle (arc_startAngle (arcGeometry ccw_arc ?q reset))
          (arc_angleSpan (arcGeometry ccw_arc ?q reset)) (Suc 0))
       (stepAngle (arc_startAngle (arcGeometry ccw_arc ?q reset))
          (arc_angleSpan (arcGeometry ccw_arc ?q reset)) (Suc (Suc 0)))"
    "correctedEndAngle False (Fin 2) (Fin 1) = js_add (Fin 1) (js_mul (Fin 2) js_PI)"
    using arc_direction [OF b, of "Fin 2" "Fin 1"] nb c by (blast, blast, simp)
  show ?thesis
    using x y by (simp add: half_circle_angles full_circle_angles)
qed

text \<open>
  As stated, for every arc, the claim fails where a coordinate is NaN: \<open>G2 X.\<close> has
  the end x NaN, so its raw end angle and its swept angle are NaN, which is not
  negative. It fails as well on the counterclockwise full circle
  \<open>G3 X0 Y-0 I1 J0\<close> from the origin, which has the start angle \<open>\<pi>\<close> and, because
  the end y is the negative zero, the raw end angle \<open>-\<pi>\<close>: a full turn is added
  and the swept angle is 0, not positive. These are the angles the statement above
  sets apart.
\<close>

lemma moves_full_circle:
  "segments (parseMoves ''G3 X0 Y-0 I1 J0'') =
     arcPolyline (arcGeometry ccw_arc
       [CHR ''X'' \<mapsto> Fin 0, CHR ''Y'' \<mapsto> NZero, CHR ''I'' \<mapsto> Fin 1, CHR ''J'' \<mapsto> Fin 0] reset)
       1 None \<lparr>px = Fin 0, py = Fin 0, pz = Fin 0\<rparr>"
  by (simp add: parseMoves_def text_defs parseFloat_def digitsVal_def digitVal_def
      js_seq_def parseLine_def wordStep_def isSkipCode_def moveTypeStep_def moveTypeOf_def
      hasWord_def dispatch_def Let_def processArc_segments
      arcEndPoint_def arcEnd_def orElse_def reset_def position_def arcGeometry_def)

lemma moves_NaN_arc:
  "segments (parseMoves ''G2 X.'') =
     arcPolyline (arcGeometry cw_arc [CHR ''X'' \<mapsto> NaN] reset)
       1 None \<lparr>px = Fin 0, py = Fin 0, pz = Fin 0\<rparr>"
  by (simp add: parseMoves_def text_defs parseFloat_def digitsVal_def digitVal_def
      js_seq_def parseLine_def wordStep_def isSkipCode_def moveTypeStep_def moveTypeOf_def
      hasWord_def dispatch_def Let_def processArc_segments
      arcEndPoint_def arcEnd_def orElse_def reset_def position_def arcGeometry_def)

theorem arc_direction_counterexample:
  "segments (parseMoves ''G2 X.'') =
     arcPolyline (arcGeometry cw_arc [CHR ''X'' \<mapsto> NaN] reset)
       1 None \<lparr>px = Fin 0, py = Fin 0, pz = Fin 0\<rparr>
   \<and> arcRawEndAngle [CHR ''X'' \<mapsto> NaN] reset = NaN
   \<and> arc_angleSpan (arcGeometry cw_arc [CHR ''X'' \<mapsto> NaN] reset) = NaN
   \<and> \<not> js_lt (arc_angleSpan (arcGeometry cw_arc [CHR ''X'' \<mapsto> NaN] reset)) (Fin 0)
   \<and> segments (parseMoves ''G3 X0 Y-0 I1 J0'') =
     arcPolyline (arcGeometry ccw_arc
       [CHR ''X'' \<mapsto> Fin 0, CHR ''Y'' \<mapsto> NZero, CHR ''I'' \<mapsto> Fin 1, CHR ''J'' \<mapsto> Fin 0] reset)
       1 None \<lparr>px = Fin 0, py = Fin 0, pz = Fin 0\<rparr>
   \<and> arc_startAngle (arcGeometry ccw_arc
       [CHR ''X'' \<mapsto> Fin 0, CHR ''Y'' \<mapsto> NZero, CHR ''I'' \<mapsto> Fin 1, CHR ''J'' \<mapsto> Fin 0] reset)
       = Fin pi
   \<and> arcRawEndAngle
       [CHR ''X'' \<mapsto> Fin 0, CHR ''Y'' \<mapsto> NZero, CHR ''I'' \<mapsto> Fin 1, CHR ''J'' \<mapsto> Fin 0] reset
       = Fin (- pi)
   \<and> arc_angleSpan (arcGeometry ccw_arc
       [CHR ''X'' \<mapsto> Fin 0, CHR ''Y'' \<mapsto> NZero, CHR ''I'' \<mapsto> Fin 1, CHR ''J'' \<mapsto> Fin 0] reset)
       = Fin 0
   \<and> \<not> js_lt (Fin 0) (arc_angleSpan (arcGeometry ccw_arc
       [CHR ''X'' \<mapsto> Fin 0, CHR ''Y'' \<mapsto> NZero, CHR ''I'' \<mapsto> Fin 1, CHR ''J'' \<mapsto> Fin 0] reset))"
proof -
  have a: "arc_startAngle (arcGeometry ccw_arc
       [CHR ''X'' \<mapsto> Fin 0, CHR ''Y'' \<mapsto> NZero, CHR ''I'' \<mapsto> Fin 1, CHR ''J'' \<mapsto> Fin 0] reset)
       = Fin pi"
    "arcRawEndAngle
       [CHR ''X'' \<mapsto> Fin 0, CHR ''Y'' \<mapsto> NZero, CHR ''I'' \<mapsto> Fin 1, CHR ''J'' \<mapsto> Fin 0] reset
       = Fin (- pi)"
    "arc_angleSpan (arcGeometry ccw_arc
       [CHR ''X'' \<mapsto> Fin 0, CHR ''Y'' \<mapsto> NZero, CHR ''I'' \<mapsto> Fin 1, CHR ''J'' \<mapsto> Fin 0] reset)
       = Fin 0"
    "arcRawEndAngle [CHR ''X'' \<mapsto> NaN] reset = NaN"
    "arc_angleSpan (arcGeometry cw_arc [CHR ''X'' \<mapsto> NaN] reset) = NaN"
    by (simp_all add: arc_defs num_defs)
  show ?thesis
    unfolding a using moves_full_circle moves_NaN_arc by simp
qed

end
